theory Spec2Isabelle
  imports Main "HOL-Library.Sublist"
begin

section \<open>Python text\<close>

text \<open>
  A Python \<open>str\<close> is modelled as a \<open>string\<close>, one \<open>char\<close> per code point, so the
  model covers the texts whose code points are below 256. On these \<open>lower\<close> and
  \<open>is_space\<close> are \<open>str.lower\<close> and \<open>str.isspace\<close>. \<open>str.upper\<close> leaves this
  range at three characters (the micro sign 181 becomes the code point 924, the
  sharp s 223 becomes two letters S, and the y with diaeresis 255 becomes the code
  point 376), so \<open>upper\<close> returns the list of the code points of the result, and
  \<open>codes\<close> gives the code points of a text.
\<close>

definition codes :: "string \<Rightarrow> nat list" where
  "codes s = map of_char s"

definition upper_char :: "char \<Rightarrow> nat list" where
  "upper_char c =
     (let n = (of_char c :: nat) in
      if (97 \<le> n \<and> n \<le> 122) \<or> (224 \<le> n \<and> n \<le> 254 \<and> n \<noteq> 247) then [n - 32]
      else if n = 181 then [924]
      else if n = 223 then [83, 83]
      else if n = 255 then [376]
      else [n])"

definition upper :: "string \<Rightarrow> nat list" where
  "upper s = concat (map upper_char s)"

definition lower_char :: "char \<Rightarrow> char" where
  "lower_char c =
     (let n = (of_char c :: nat) in
      if (65 \<le> n \<and> n \<le> 90) \<or> (192 \<le> n \<and> n \<le> 222 \<and> n \<noteq> 215) then char_of (n + 32)
      else c)"

definition lower :: "string \<Rightarrow> string" where
  "lower s = map lower_char s"

text \<open>
  The characters below 256 for which \<open>str.isspace\<close> holds: 9 to 13, 28 to 32, 133
  (next line) and 160 (no-break space).
\<close>

definition is_space :: "char \<Rightarrow> bool" where
  "is_space c =
     (let n = (of_char c :: nat) in
      (9 \<le> n \<and> n \<le> 13) \<or> (28 \<le> n \<and> n \<le> 32) \<or> n = 133 \<or> n = 160)"

text \<open>\<open>s.strip()\<close>: the whitespace at both ends is removed.\<close>

definition strip :: "string \<Rightarrow> string" where
  "strip s = rev (dropWhile is_space (rev (dropWhile is_space s)))"

text \<open>
  \<open>s.replace(old, new)\<close> for one-character \<open>old\<close> and \<open>new\<close>, the only use the program
  makes of it: every occurrence of the character is substituted.
\<close>

definition replace_char :: "char \<Rightarrow> char \<Rightarrow> string \<Rightarrow> string" where
  "replace_char old new s = map (\<lambda>c. if c = old then new else c) s"

text \<open>
  \<open>s.split(sep)\<close> for a non-empty separator: the text is scanned from the left, and each
  occurrence of \<open>sep\<close> found ends a piece and is skipped whole. (Python raises
  \<open>ValueError\<close> on an empty separator; the program always passes \<open>", "\<close>.)
\<close>

function split :: "string \<Rightarrow> string \<Rightarrow> string list" where
  "split sep [] = [[]]"
| "split sep (c # cs) =
     (if sep \<noteq> [] \<and> prefix sep (c # cs)
      then [] # split sep (drop (length sep) (c # cs))
      else (case split sep cs of [] \<Rightarrow> [[c]] | p # ps \<Rightarrow> (c # p) # ps))"
  by pat_completeness auto
termination
  by (relation "measure (\<lambda>(sep, s). length s)") auto

text \<open>\<open>sep.join(xs)\<close>.\<close>

fun join :: "string \<Rightarrow> string list \<Rightarrow> string" where
  "join sep [] = []"
| "join sep [x] = x"
| "join sep (x # y # ys) = x @ sep @ join sep (y # ys)"

text \<open>
  A field of a record holds a \<open>str\<close>, or \<open>None\<close>: the dataclass does not check its
  annotations, and \<open>csv.DictReader\<close> supplies \<open>None\<close> for the cells that a row shorter
  than the header lacks. \<open>truthy\<close> is the test \<open>if v:\<close>, \<open>fstr\<close> is the text that
  \<open>{v}\<close> contributes to an f-string.
\<close>

type_synonym field = "string option"

definition truthy :: "field \<Rightarrow> bool" where
  "truthy v = (case v of None \<Rightarrow> False | Some s \<Rightarrow> s \<noteq> [])"

definition fstr :: "field \<Rightarrow> string" where
  "fstr v = (case v of None \<Rightarrow> ''None'' | Some s \<Rightarrow> s)"

section \<open>Task records\<close>

text \<open>
  The dataclass \<open>Task\<close>, field by field. The field \<open>notes\<close> is written \<open>notes'\<close>, since
  \<open>notes\<close> is a word of the proof language.
\<close>

record Task =
  task_id :: field
  task_name :: field
  phase :: field
  week :: field
  duration :: field
  assignee :: field
  dependencies :: field
  priority :: field
  status :: field
  start_date :: field
  end_date :: field
  deliverables :: field
  acceptance_criteria :: field
  automation_category :: field
  manus_tasks :: field
  human_tasks :: field
  notes' :: field

section \<open>Labels\<close>

text \<open>
  \<open>get_labels_for_task\<close>: the list starts empty and each guarded \<open>append\<close> adds one
  label, in the order of the source. A guard \<open>if task.f:\<close> holds when the field is a text
  that is not empty. The test \<open>k in s\<close> on texts is \<open>sublist k s\<close>: the characters of
  \<open>k\<close> occur in \<open>s\<close> one after the other.
\<close>

definition status_labels :: "field \<Rightarrow> string list" where
  "status_labels v =
     (case v of None \<Rightarrow> []
      | Some s \<Rightarrow> if s \<noteq> [] then [''status:'' @ replace_char CHR '' '' CHR ''-'' (lower s)] else [])"

definition phase_labels :: "field \<Rightarrow> string list" where
  "phase_labels v =
     (case v of None \<Rightarrow> [] | Some s \<Rightarrow> if s \<noteq> [] then [''phase:'' @ s] else [])"

definition automation_labels :: "field \<Rightarrow> string list" where
  "automation_labels v =
     (case v of None \<Rightarrow> [] | Some s \<Rightarrow> if s \<noteq> [] then [''automation:'' @ lower s] else [])"

definition role_labels :: "field \<Rightarrow> string list" where
  "role_labels v =
     (case v of None \<Rightarrow> []
      | Some a \<Rightarrow>
          if a \<noteq> [] then
            (if sublist ''technical lead'' (lower a) then [''role:technical-lead''] else [])
            @ (if sublist ''ai/ml engineer'' (lower a) then [''role:ai-ml-engineer''] else [])
            @ (if sublist ''frontend developer'' (lower a) then [''role:frontend-developer''] else [])
            @ (if sublist ''product manager'' (lower a) then [''role:product-manager''] else [])
            @ (if sublist ''devops engineer'' (lower a) then [''role:devops-engineer''] else [])
          else [])"

definition get_labels_for_task :: "Task \<Rightarrow> string list" where
  "get_labels_for_task t =
     status_labels (status t) @ phase_labels (phase t)
     @ automation_labels (automation_category t) @ role_labels (assignee t) @ [''task'']"

section \<open>Issue bodies\<close>

text \<open>
  The fixed texts that the three branches of \<open>create_issue_body\<close> assign to
  \<open>automation_section\<close> and \<open>definition_of_done\<close>. Each is a triple-quoted literal
  that opens with a line break and has none at its end.
\<close>

definition human_section :: string where
  "human_section =
     ''\<newline>'' @
     ''## Description\<newline>'' @
     ''Brief description of what needs to be done by a human team member.\<newline>'' @
     ''\<newline>'' @
     ''**HUMAN Only:** This task requires human intervention for strategic decisions, user research, or quality validation.\<newline>'' @
     ''\<newline>'' @
     ''## Human Actions Required\<newline>'' @
     ''- [ ] Account setup/management\<newline>'' @
     ''- [ ] Strategic decisions\<newline>'' @
     ''- [ ] User research\<newline>'' @
     ''- [ ] Quality validation\<newline>'' @
     ''- [ ] Legal/compliance review\<newline>'' @
     ''- [ ] Other: ___________''"

definition human_done :: string where
  "human_done =
     ''\<newline>'' @
     ''## Definition of Done\<newline>'' @
     ''- [ ] Documentation updated\<newline>'' @
     ''- [ ] All required actions completed\<newline>'' @
     ''- [ ] Next steps identified\<newline>'' @
     ''- [ ] Stakeholders notified''"

definition manus_section :: string where
  "manus_section =
     ''\<newline>'' @
     ''## Description\<newline>'' @
     ''Brief description of what needs to be implemented using AI automation.\<newline>'' @
     ''\<newline>'' @
     ''**MANUS Only:** This task can be fully automated using AI tools and does not require human intervention.\<newline>'' @
     ''\<newline>'' @
     ''## Manus Implementation Required\<newline>'' @
     ''- [ ] Code generation\<newline>'' @
     ''- [ ] Configuration files\<newline>'' @
     ''- [ ] Documentation\<newline>'' @
     ''- [ ] Testing framework\<newline>'' @
     ''- [ ] Other: ___________''"

definition manus_done :: string where
  "manus_done =
     ''\<newline>'' @
     ''## Definition of Done\<newline>'' @
     ''- [ ] Code implemented and tested\<newline>'' @
     ''- [ ] Tests passing\<newline>'' @
     ''- [ ] Ready for human review''"

definition split_section :: string where
  "split_section =
     ''\<newline>'' @
     ''## Description\<newline>'' @
     ''Brief description of what needs to be done through combined human and AI efforts.\<newline>'' @
     ''\<newline>'' @
     ''**SPLIT Only:** This task is split between human and AI efforts.\<newline>'' @
     ''\<newline>'' @
     ''## Split Implementation Required\<newline>'' @
     ''- [ ] Manus automation\<newline>'' @
     ''- [ ] Human oversight\<newline>'' @
     ''- [ ] Integration validation\<newline>'' @
     ''- [ ] Other: ___________''"

definition split_done :: string where
  "split_done =
     ''\<newline>'' @
     ''## Definition of Done\<newline>'' @
     ''- [ ] Manus automation completed\<newline>'' @
     ''- [ ] Human oversight completed\<newline>'' @
     ''- [ ] Integration validated\<newline>'' @
     ''- [ ] Ready for next phase''"

text \<open>
  The \<open>if\<close>/\<open>elif\<close> chain on \<open>task.automation_category.upper()\<close>; the pair is
  (\<open>automation_section\<close>, \<open>definition_of_done\<close>), both initialised to the empty
  string.
\<close>

definition category_sections :: "string \<Rightarrow> string \<times> string" where
  "category_sections c =
     (if upper c = codes ''HUMAN'' then (human_section, human_done)
      else if upper c = codes ''MANUS'' then (manus_section, manus_done)
      else if upper c = codes ''SPLIT'' then (split_section, split_done)
      else ([], []))"

text \<open>The two loops that turn a field into checklist lines.\<close>

definition deliverables_list :: "field \<Rightarrow> string list" where
  "deliverables_list v =
     (case v of None \<Rightarrow> []
      | Some s \<Rightarrow>
          if s \<noteq> [] then map (\<lambda>deliverable. ''- [ ] '' @ strip deliverable) (split '', '' s)
          else [])"

definition acceptance_criteria_list :: "field \<Rightarrow> string list" where
  "acceptance_criteria_list v =
     (case v of None \<Rightarrow> []
      | Some s \<Rightarrow>
          if s \<noteq> [] then map (\<lambda>criteria. ''- [ ] '' @ strip criteria) (split '', '' s)
          else [])"

text \<open>
  The expression \<open>chr(10).join(xs) if xs else "- [ ] To be defined"\<close> that fills the
  Deliverables and the Acceptance Criteria sections of the template.
\<close>

definition checklist_text :: "string list \<Rightarrow> string" where
  "checklist_text xs = (if xs \<noteq> [] then join ''\<newline>'' xs else ''- [ ] To be defined'')"

text \<open>
  The template of the body, cut at the two places where the category texts are
  inserted: the part before \<open>{automation_section}\<close>, the part between it and
  \<open>{definition_of_done}\<close>, and the part after.
\<close>

definition body_overview :: "Task \<Rightarrow> string" where
  "body_overview t =
     ''## Task Overview\<newline>'' @
     ''**Task ID:** '' @ fstr (task_id t) @ ''\<newline>'' @
     ''**Phase:** '' @ fstr (phase t) @ ''\<newline>'' @
     ''**Week:** '' @ fstr (week t) @ ''\<newline>'' @
     ''**Duration:** '' @ fstr (duration t) @ '' days\<newline>'' @
     ''**Priority:** '' @ fstr (priority t) @ ''\<newline>''"

definition body_sections :: "Task \<Rightarrow> string" where
  "body_sections t =
     ''\<newline>'' @
     ''\<newline>'' @
     ''## Deliverables\<newline>'' @
     checklist_text (deliverables_list (deliverables t)) @ ''\<newline>'' @
     ''\<newline>'' @
     ''## Acceptance Criteria\<newline>'' @
     checklist_text (acceptance_criteria_list (acceptance_criteria t)) @ ''\<newline>'' @
     ''\<newline>'' @
     ''## Dependencies\<newline>'' @
     ''List any tasks that must be completed before this one:\<newline>'' @
     (if truthy (dependencies t) then ''- '' @ fstr (dependencies t) else ''None'') @ ''\<newline>'' @
     ''\<newline>'' @
     ''## Resources Needed\<newline>'' @
     ''- Access to: ___________\<newline>'' @
     ''- Credentials for: ___________\<newline>'' @
     ''- Approval from: ___________\<newline>'' @
     ''\<newline>'' @
     ''## Notes\<newline>'' @
     (if truthy (notes' t) then fstr (notes' t) else ''No additional notes'') @ ''\<newline>''"

definition body_footer :: "Task \<Rightarrow> string" where
  "body_footer t =
     ''\<newline>'' @
     ''\<newline>'' @
     ''---\<newline>'' @
     ''\<newline>'' @
     ''**Start Date:** '' @ fstr (start_date t) @ ''  \<newline>'' @
     ''**End Date:** '' @ fstr (end_date t) @ ''  \<newline>'' @
     ''**Assignee:** '' @ fstr (assignee t) @ ''  \<newline>'' @
     ''**Status:** '' @ fstr (status t) @ ''  \<newline>''"

text \<open>
  \<open>create_issue_body\<close>. The only step that can raise is
  \<open>task.automation_category.upper()\<close>, on a category that is \<open>None\<close>.
\<close>

datatype py_error = AttributeError | KeyError string

definition create_issue_body :: "Task \<Rightarrow> py_error + string" where
  "create_issue_body t =
     (case automation_category t of
        None \<Rightarrow> Inl AttributeError
      | Some c \<Rightarrow>
          (case category_sections c of
             (automation_section, definition_of_done) \<Rightarrow>
               Inr (body_overview t @ automation_section @ body_sections t
                    @ definition_of_done @ body_footer t)))"

section \<open>Issue titles\<close>

text \<open>
  The f-string under the key \<open>"title"\<close> in \<open>create_issue\<close>, as the list of its code
  points, since it holds the category in upper case.
\<close>

definition issue_title :: "Task \<Rightarrow> py_error + nat list" where
  "issue_title t =
     (case automation_category t of
        None \<Rightarrow> Inl AttributeError
      | Some c \<Rightarrow>
          Inr (codes (fstr (task_id t)) @ codes '': ['' @ upper c @ codes ''] ''
               @ codes (fstr (task_name t))))"


section \<open>The tracker and the console\<close>

text \<open>
  The value that \<open>response.json()\<close> returns. \<open>subscript v key\<close> is \<open>v[key]\<close> for a text
  key: it succeeds on an object that has the key and raises (\<open>None\<close>) on everything
  else. \<open>json_truthy\<close> is the test \<open>if v:\<close>.
\<close>

datatype json =
    JNull
  | JBool bool
  | JNumber int
  | JString string
  | JArray "json list"
  | JObject "(string \<times> json) list"

fun subscript :: "json \<Rightarrow> string \<Rightarrow> json option" where
  "subscript (JObject kvs) key = map_of kvs key"
| "subscript _ key = None"

fun json_truthy :: "json \<Rightarrow> bool" where
  "json_truthy JNull = False"
| "json_truthy (JBool b) = b"
| "json_truthy (JNumber n) = (n \<noteq> 0)"
| "json_truthy (JString s) = (s \<noteq> [])"
| "json_truthy (JArray xs) = (xs \<noteq> [])"
| "json_truthy (JObject kvs) = (kvs \<noteq> [])"

text \<open>
  A request is the JSON document posted and the endpoint it goes to: \<open>/issues\<close> with
  title (its code points), body and labels; \<open>/labels\<close> with name, color and description; \<open>/milestones\<close> with
  title, description, state and, when given, \<open>due_on\<close>.
\<close>

datatype request =
    Post_issue "nat list" string "string list"
  | Post_label string string string
  | Post_milestone string string string "string option"

text \<open>
  What \<open>session.post\<close> does: it raises, or it returns a response with a status code, a
  text and the value of \<open>response.json()\<close> (\<open>None\<close> when that call raises).
\<close>

datatype reply = Raises | Response nat string "json option"

text \<open>
  The tracker is outside the program. It is a parameter of the model: a function from its
  own state and a request to a reply and a new state, so that a reply may depend on every
  request made before.
\<close>

type_synonym 's tracker = "'s \<Rightarrow> request \<Rightarrow> reply \<times> 's"

text \<open>
  One constructor for each \<open>print\<close> of the program, with the values interpolated into
  the message. The text of an exception is left out.
\<close>

datatype line =
    Csv_not_found string
  | Csv_read_error
  | Issue_created json string string
  | Issue_failed string nat
  | Issue_response string
  | Issue_error string
  | Labels_begin
  | Label_created string
  | Label_exists string
  | Label_failed string nat
  | Label_error string
  | Labels_done
  | Milestones_begin
  | Milestone_created string
  | Milestone_exists string
  | Milestone_failed string nat
  | Milestone_error string
  | Milestones_done
  | Reading string
  | Found nat
  | Issues_begin
  | Summary_head
  | Summary_created nat
  | Summary_failed nat
  | Summary_total nat



text \<open>
  The state a run works on: the tracker's state, the requests posted so far and the
  lines printed so far, both oldest first.
\<close>

record 's world =
  tracker_state :: 's
  sent :: "request list"
  console :: "line list"

definition say :: "line \<Rightarrow> 's world \<Rightarrow> 's world" where
  "say l w = w\<lparr>console := console w @ [l]\<rparr>"

definition post :: "'s tracker \<Rightarrow> request \<Rightarrow> 's world \<Rightarrow> reply \<times> 's world" where
  "post tr q w =
     (case tr (tracker_state w) q of
        (r, s) \<Rightarrow> (r, w\<lparr>tracker_state := s, sent := sent w @ [q]\<rparr>))"

section \<open>Creating an issue\<close>

text \<open>
  The dictionary \<open>issue_data\<close> of \<open>create_issue\<close>, built before the \<open>try\<close>: title, then
  body, then labels.
\<close>

definition issue_data :: "Task \<Rightarrow> py_error + request" where
  "issue_data t =
     (case issue_title t of
        Inl e \<Rightarrow> Inl e
      | Inr title \<Rightarrow>
          (case create_issue_body t of
             Inl e \<Rightarrow> Inl e
           | Inr body \<Rightarrow> Inr (Post_issue title body (get_labels_for_task t))))"

text \<open>
  \<open>create_issue\<close>. An exception raised while \<open>issue_data\<close> is built leaves the function
  (\<open>Inl\<close>); one raised inside the \<open>try\<close> (by the post, by \<open>response.json()\<close> or by
  \<open>issue['number']\<close>) is caught, and the function returns \<open>None\<close>.
\<close>

definition create_issue :: "'s tracker \<Rightarrow> Task \<Rightarrow> 's world \<Rightarrow> (py_error + json option) \<times> 's world" where
  "create_issue tr t w =
     (case issue_data t of
        Inl e \<Rightarrow> (Inl e, w)
      | Inr q \<Rightarrow>
          (case post tr q w of
             (Raises, w1) \<Rightarrow> (Inr None, say (Issue_error (fstr (task_id t))) w1)
           | (Response status_code text js, w1) \<Rightarrow>
               if status_code = 201 then
                 (case js of
                    None \<Rightarrow> (Inr None, say (Issue_error (fstr (task_id t))) w1)
                  | Some issue \<Rightarrow>
                      (case subscript issue ''number'' of
                         None \<Rightarrow> (Inr None, say (Issue_error (fstr (task_id t))) w1)
                       | Some n \<Rightarrow>
                           (Inr (Some issue),
                            say (Issue_created n (fstr (task_id t)) (fstr (task_name t))) w1)))
               else
                 (Inr None,
                  say (Issue_response text) (say (Issue_failed (fstr (task_id t)) status_code) w1))))"

section \<open>Labels and milestones\<close>

text \<open>The catalogue \<open>labels_to_create\<close>: name, color, description.\<close>

definition labels_to_create :: "(string \<times> string \<times> string) list" where
  "labels_to_create =
     [(''priority:high'', ''d73a4a'', ''High priority task''),
      (''priority:medium'', ''fbca04'', ''Medium priority task''),
      (''priority:low'', ''0e8a16'', ''Low priority task''),
      (''phase:1'', ''1f77b4'', ''Phase 1 task''),
      (''phase:2'', ''ff7f0e'', ''Phase 2 task''),
      (''phase:3'', ''2ca02c'', ''Phase 3 task''),
      (''phase:4'', ''d62728'', ''Phase 4 task''),
      (''status:todo'', ''e4e669'', ''Task not started''),
      (''status:in-progress'', ''0052cc'', ''Task in progress''),
      (''status:closed'', ''0e8a16'', ''Task completed''),
      (''status:blocked'', ''d73a4a'', ''Task blocked''),
      (''automation:manus'', ''8b5cf6'', ''Can be automated by Manus''),
      (''automation:human'', ''f59e0b'', ''Requires human intervention''),
      (''automation:split'', ''06b6d4'', ''Mixed automation and human tasks''),
      (''role:technical-lead'', ''ff6b6b'', ''Technical Lead tasks''),
      (''role:ai-ml-engineer'', ''4ecdc4'', ''AI/ML Engineer tasks''),
      (''role:frontend-developer'', ''45b7d1'', ''Frontend Developer tasks''),
      (''role:product-manager'', ''f9ca24'', ''Product Manager tasks''),
      (''role:devops-engineer'', ''6c5ce7'', ''DevOps Engineer tasks''),
      (''task'', ''7057ff'', ''General task'')]"

definition label_request :: "string \<times> string \<times> string \<Rightarrow> request" where
  "label_request l = (case l of (name, color, description) \<Rightarrow> Post_label name color description)"

text \<open>The body of the loop of \<open>create_labels\<close>, and the line it prints for a reply.\<close>

fun label_line :: "string \<Rightarrow> reply \<Rightarrow> line" where
  "label_line name Raises = Label_error name"
| "label_line name (Response status_code text js) =
     (if status_code = 201 then Label_created name
      else if status_code = 422 then Label_exists name
      else Label_failed name status_code)"

definition create_label :: "'s tracker \<Rightarrow> string \<times> string \<times> string \<Rightarrow> 's world \<Rightarrow> 's world" where
  "create_label tr l w =
     (case post tr (label_request l) w of (r, w1) \<Rightarrow> say (label_line (fst l) r) w1)"

definition create_labels :: "'s tracker \<Rightarrow> 's world \<Rightarrow> 's world" where
  "create_labels tr w =
     say Labels_done (fold (create_label tr) labels_to_create (say Labels_begin w))"

text \<open>
  \<open>create_milestone\<close>: \<open>due_on\<close> is added to the document when \<open>due_date\<close> is given and
  not empty. The result is the milestone the tracker returned, or \<open>None\<close>.
\<close>

definition milestone_request :: "string \<times> string \<times> string option \<Rightarrow> request" where
  "milestone_request m =
     (case m of
        (name, description, due_date) \<Rightarrow>
          Post_milestone name description ''open'' (if truthy due_date then due_date else None))"

definition create_milestone ::
  "'s tracker \<Rightarrow> string \<Rightarrow> string \<Rightarrow> string option \<Rightarrow> 's world \<Rightarrow> json option \<times> 's world" where
  "create_milestone tr name description due_date w =
     (case post tr (milestone_request (name, description, due_date)) w of
        (Raises, w1) \<Rightarrow> (None, say (Milestone_error name) w1)
      | (Response status_code text js, w1) \<Rightarrow>
          if status_code = 201 then
            (case js of
               None \<Rightarrow> (None, say (Milestone_error name) w1)
             | Some milestone \<Rightarrow> (Some milestone, say (Milestone_created name) w1))
          else if status_code = 422 then (None, say (Milestone_exists name) w1)
          else (None, say (Milestone_failed name status_code) w1))"

text \<open>The catalogue of \<open>create_milestones\<close>: name, description, due date.\<close>

definition milestones :: "(string \<times> string \<times> string option) list" where
  "milestones =
     [(''Phase 1: Core Backend Development'',
       ''Foundation setup and core processing functions'', Some ''2025-08-14T23:59:59Z''),
      (''Phase 2: WhatsApp Integration'',
       ''WhatsApp integration and enhanced features'', Some ''2025-09-13T23:59:59Z''),
      (''Phase 3: Multi-Platform Expansion'',
       ''Google Assistant integration and legacy features'', Some ''2025-11-07T23:59:59Z''),
      (''Phase 4: Advanced AI and Launch'',
       ''Machine learning integration and production launch'', Some ''2025-12-30T23:59:59Z'')]"

definition create_milestones :: "'s tracker \<Rightarrow> 's world \<Rightarrow> 's world" where
  "create_milestones tr w =
     say Milestones_done
       (fold (\<lambda>m w. case m of (name, description, due_date) \<Rightarrow>
                  snd (create_milestone tr name description due_date w))
          milestones (say Milestones_begin w))"


section \<open>Reading the records\<close>

text \<open>
  The file system is a parameter: a path names no file (\<open>open\<close> raises
  \<open>FileNotFoundError\<close>), or a file that cannot be opened, decoded or parsed (any other
  exception), or a file that \<open>csv.reader\<close> parses into rows of cells.
\<close>

datatype input_file = Absent | Unreadable | Csv "string list list"

type_synonym filesystem = "string \<Rightarrow> input_file"

text \<open>
  \<open>csv.DictReader\<close>: the first row gives the field names; every later row that is not
  empty becomes a dictionary from the field names to its cells, with \<open>None\<close> for the cells
  a short row lacks. The dictionary is kept as the list of its assignments in order, so
  the last assignment to a key is its value. (The cells a long row has beyond the header
  go under the key \<open>None\<close>, which no lookup of the program uses.)
\<close>

type_synonym row = "(string \<times> field) list"

definition row_dict :: "string list \<Rightarrow> string list \<Rightarrow> row" where
  "row_dict fieldnames cells =
     zip fieldnames (map Some cells @ replicate (length fieldnames - length cells) None)"

definition dict_reader :: "string list list \<Rightarrow> row list" where
  "dict_reader rows =
     (case rows of
        [] \<Rightarrow> []
      | fieldnames # rest \<Rightarrow> map (row_dict fieldnames) (filter (\<lambda>cells. cells \<noteq> []) rest))"

text \<open>\<open>row[key]\<close>.\<close>

definition cell :: "row \<Rightarrow> string \<Rightarrow> py_error + field" where
  "cell r key = (case map_of (rev r) key of None \<Rightarrow> Inl (KeyError key) | Some v \<Rightarrow> Inr v)"

definition bind :: "'e + 'a \<Rightarrow> ('a \<Rightarrow> 'e + 'b) \<Rightarrow> 'e + 'b" where
  "bind m f = (case m of Inl e \<Rightarrow> Inl e | Inr x \<Rightarrow> f x)"

text \<open>The call \<open>Task(task_id=row["Task ID"], ...)\<close>: the lookups run in this order.\<close>

definition task_of_row :: "row \<Rightarrow> py_error + Task" where
  "task_of_row r =
     bind (cell r ''Task ID'') (\<lambda>v1.
     bind (cell r ''Task Name'') (\<lambda>v2.
     bind (cell r ''Phase'') (\<lambda>v3.
     bind (cell r ''Week'') (\<lambda>v4.
     bind (cell r ''Duration (Days)'') (\<lambda>v5.
     bind (cell r ''Assignee'') (\<lambda>v6.
     bind (cell r ''Dependencies'') (\<lambda>v7.
     bind (cell r ''Priority'') (\<lambda>v8.
     bind (cell r ''Status'') (\<lambda>v9.
     bind (cell r ''Start Date'') (\<lambda>v10.
     bind (cell r ''End Date'') (\<lambda>v11.
     bind (cell r ''Deliverables'') (\<lambda>v12.
     bind (cell r ''Acceptance Criteria'') (\<lambda>v13.
     bind (cell r ''Automation Category'') (\<lambda>v14.
     bind (cell r ''Manus Tasks'') (\<lambda>v15.
     bind (cell r ''Human Tasks'') (\<lambda>v16.
     bind (cell r ''Notes'') (\<lambda>v17.
       Inr \<lparr>task_id = v1, task_name = v2, phase = v3, week = v4, duration = v5,
            assignee = v6, dependencies = v7, priority = v8, status = v9,
            start_date = v10, end_date = v11, deliverables = v12,
            acceptance_criteria = v13, automation_category = v14, manus_tasks = v15,
            human_tasks = v16, notes' = v17\<rparr>)))))))))))))))))"

fun read_rows :: "row list \<Rightarrow> py_error + Task list" where
  "read_rows [] = Inr []"
| "read_rows (r # rs) =
     bind (task_of_row r) (\<lambda>task. bind (read_rows rs) (\<lambda>tasks. Inr (task # tasks)))"

text \<open>
  \<open>read_tasks_from_csv\<close>. Both handlers print a message and call \<open>sys.exit(1)\<close>; the
  error value tells which one ran: \<open>InputNotFound\<close> for the handler of
  \<open>FileNotFoundError\<close>, \<open>InputMalformed\<close> for the handler of every other exception.
\<close>

datatype fatal = InputNotFound | InputMalformed

definition read_tasks_from_csv ::
  "filesystem \<Rightarrow> string \<Rightarrow> 's world \<Rightarrow> (fatal + Task list) \<times> 's world" where
  "read_tasks_from_csv fs csv_file w =
     (case fs csv_file of
        Absent \<Rightarrow> (Inl InputNotFound, say (Csv_not_found csv_file) w)
      | Unreadable \<Rightarrow> (Inl InputMalformed, say Csv_read_error w)
      | Csv rows \<Rightarrow>
          (case read_rows (dict_reader rows) of
             Inl e \<Rightarrow> (Inl InputMalformed, say Csv_read_error w)
           | Inr tasks \<Rightarrow> (Inr tasks, w)))"

section \<open>The run\<close>

text \<open>
  The loop of \<open>process_all_tasks\<close> over the tasks, with its two counters. An exception
  that leaves \<open>create_issue\<close> leaves the loop.
\<close>

fun issues_loop ::
  "'s tracker \<Rightarrow> Task list \<Rightarrow> nat \<Rightarrow> nat \<Rightarrow> 's world \<Rightarrow> (py_error + nat \<times> nat) \<times> 's world" where
  "issues_loop tr [] success_count failed_count w = (Inr (success_count, failed_count), w)"
| "issues_loop tr (task # tasks) success_count failed_count w =
     (case create_issue tr task w of
        (Inl e, w1) \<Rightarrow> (Inl e, w1)
      | (Inr issue, w1) \<Rightarrow>
          if (case issue of None \<Rightarrow> False | Some v \<Rightarrow> json_truthy v)
          then issues_loop tr tasks (success_count + 1) failed_count w1
          else issues_loop tr tasks success_count (failed_count + 1) w1)"

text \<open>
  The second half of \<open>process_all_tasks\<close>, from \<open>"Creating GitHub issues..."\<close> to the
  summary. The result is the three numbers of the summary: created, failed, total.
\<close>

definition create_issues ::
  "'s tracker \<Rightarrow> Task list \<Rightarrow> 's world \<Rightarrow> (py_error + nat \<times> nat \<times> nat) \<times> 's world" where
  "create_issues tr tasks w =
     (case issues_loop tr tasks 0 0 (say Issues_begin w) of
        (Inl e, w1) \<Rightarrow> (Inl e, w1)
      | (Inr (success_count, failed_count), w1) \<Rightarrow>
          (Inr (success_count, failed_count, length tasks),
           say (Summary_total (length tasks))
             (say (Summary_failed failed_count)
                (say (Summary_created success_count) (say Summary_head w1)))))"

text \<open>
  \<open>process_all_tasks\<close>: it ends in \<open>sys.exit(1)\<close> when the reader fails, in an uncaught
  exception when \<open>create_issue\<close> raises, and returns otherwise.
\<close>

datatype outcome = SystemExit fatal | Uncaught py_error | Returned

definition process_all_tasks ::
  "filesystem \<Rightarrow> 's tracker \<Rightarrow> string \<Rightarrow> 's world \<Rightarrow> outcome \<times> 's world" where
  "process_all_tasks fs tr csv_file w =
     (case read_tasks_from_csv fs csv_file (say (Reading csv_file) w) of
        (Inl f, w1) \<Rightarrow> (SystemExit f, w1)
      | (Inr tasks, w1) \<Rightarrow>
          (case create_issues tr tasks
                  (create_milestones tr (create_labels tr (say (Found (length tasks)) w1))) of
             (Inl e, w2) \<Rightarrow> (Uncaught e, w2)
           | (Inr summary, w2) \<Rightarrow> (Returned, w2)))"

section \<open>Notions used to state the properties\<close>

text \<open>
  Two texts are equal when case is ignored if folding both to lower case gives the same
  text.
\<close>

definition ci_eq :: "string \<Rightarrow> string \<Rightarrow> bool" where
  "ci_eq x y = (lower x = lower y)"

text \<open>
  A list of code points in which the letter S (83) never comes twice in a row.
\<close>

fun no_double_S :: "nat list \<Rightarrow> bool" where
  "no_double_S (x # y # zs) = (\<not> (x = 83 \<and> y = 83) \<and> no_double_S (y # zs))"
| "no_double_S _ = True"

text \<open>
  The role keywords and the label each one stands for.
\<close>

definition role_table :: "(string \<times> string) list" where
  "role_table =
     [(''technical lead'', ''role:technical-lead''),
      (''ai/ml engineer'', ''role:ai-ml-engineer''),
      (''frontend developer'', ''role:frontend-developer''),
      (''product manager'', ''role:product-manager''),
      (''devops engineer'', ''role:devops-engineer'')]"

text \<open>
  The entries of a field read as a comma-separated list: the pieces between one comma
  and the next.
\<close>

definition comma_entries :: "string \<Rightarrow> string list" where
  "comma_entries s = split '','' s"

text \<open>
  The checklist of a field whose entries are delimited by a comma and a space: one item
  for each entry, trimmed; and the text of a checklist section: the items joined by line
  breaks, or the single line \<open>- [ ] To be defined\<close> when the field is empty.
\<close>

definition checklist_items :: "string \<Rightarrow> string list" where
  "checklist_items x = map (\<lambda>entry. ''- [ ] '' @ strip entry) (split '', '' x)"

definition checklist_section :: "string \<Rightarrow> string" where
  "checklist_section x =
     (if x = [] then ''- [ ] To be defined'' else join ''\<newline>'' (checklist_items x))"

text \<open>The checklist with one item for each comma-separated entry, trimmed.\<close>

definition comma_checklist :: "string \<Rightarrow> string list" where
  "comma_checklist s = map (\<lambda>entry. ''- [ ] '' @ strip entry) (comma_entries s)"

text \<open>
  The columns \<open>read_tasks_from_csv\<close> looks up in every row, in the order of the lookups.
\<close>

definition required_columns :: "string list" where
  "required_columns =
     [''Task ID'', ''Task Name'', ''Phase'', ''Week'', ''Duration (Days)'', ''Assignee'',
      ''Dependencies'', ''Priority'', ''Status'', ''Start Date'', ''End Date'',
      ''Deliverables'', ''Acceptance Criteria'', ''Automation Category'', ''Manus Tasks'',
      ''Human Tasks'', ''Notes'']"

text \<open>
  The replies a tracker gives to a sequence of requests made one after the other from a
  state, and the replies that report a created issue: status 201 with a JSON object that
  has the key \<open>number\<close>.
\<close>

fun replies :: "'s tracker \<Rightarrow> 's \<Rightarrow> request list \<Rightarrow> reply list" where
  "replies tr s [] = []"
| "replies tr s (q # qs) = (case tr s q of (r, s') \<Rightarrow> r # replies tr s' qs)"

fun issue_accepted :: "reply \<Rightarrow> bool" where
  "issue_accepted Raises = False"
| "issue_accepted (Response status_code text js) =
     (status_code = 201 \<and> (case js of None \<Rightarrow> False | Some v \<Rightarrow> subscript v ''number'' \<noteq> None))"

section \<open>Examples\<close>

text \<open>
  A record, a table of two records with an empty row between them, the records it
  holds, a table whose header lacks the column \<open>Notes\<close>, and a file system with these
  tables, a file that has a header and no rows, and nothing else.
\<close>

definition example_task :: Task where
  "example_task =
     \<lparr>task_id = Some ''T-7'', task_name = Some ''Set up hosting'', phase = Some ''1'',
      week = Some ''2'', duration = Some ''3'',
      assignee = Some ''TECHNICAL Lead and Product manager'',
      dependencies = Some '''', priority = Some ''High'', status = Some ''In Progress'',
      start_date = Some ''2025-07-01'', end_date = Some ''2025-07-04'',
      deliverables = Some ''Project created,  billing enabled , IAM roles'',
      acceptance_criteria = Some '''', automation_category = Some ''Split'',
      manus_tasks = Some '''', human_tasks = Some '''', notes' = Some ''''\<rparr>"

definition table_example :: "string list list" where
  "table_example =
     [[''Task ID'', ''Task Name'', ''Phase'', ''Week'', ''Duration (Days)'', ''Assignee'',
       ''Dependencies'', ''Priority'', ''Status'', ''Start Date'', ''End Date'',
       ''Deliverables'', ''Acceptance Criteria'', ''Automation Category'',
       ''Manus Tasks'', ''Human Tasks'', ''Notes''],
      [''T-1'', ''Plan'', ''1'', ''1'', ''2'', ''Product Manager'', [], ''High'', ''To Do'',
       ''2025-07-01'', ''2025-07-02'', ''Plan document'', ''Approved'', ''Human'', [], [], []],
      [],
      [''T-2'', ''Build'', ''1'', ''2'', ''5'', ''DevOps Engineer'', ''T-1'', ''Medium'',
       ''Closed'', ''2025-07-03'', ''2025-07-08'', ''Pipeline, Runbook'', [], ''Manus'', [],
       [], ''Uses the shared runner'']]"


definition table_no_notes :: "string list list" where
  "table_no_notes =
     [[''Task ID'', ''Task Name'', ''Phase'', ''Week'', ''Duration (Days)'', ''Assignee'',
       ''Dependencies'', ''Priority'', ''Status'', ''Start Date'', ''End Date'',
       ''Deliverables'', ''Acceptance Criteria'', ''Automation Category'',
       ''Manus Tasks'', ''Human Tasks''],
      [''T-1'', ''Plan'', ''1'', ''1'', ''2'', ''Product Manager'', [], ''High'', ''To Do'',
       ''2025-07-01'', ''2025-07-02'', ''Plan document'', ''Approved'', ''Human'', [], []]]"

definition files_example :: filesystem where
  "files_example path =
     (if path = ''tasks.csv'' then Csv table_example
      else if path = ''no_notes.csv'' then Csv table_no_notes
      else if path = ''header_only.csv'' then Csv [[''Task ID'', ''Task Name'']]
      else Absent)"


definition tracker_conflict :: "nat tracker" where
  "tracker_conflict n q = (Response 422 ''Validation Failed'' None, n + 1)"

definition world0 :: "nat world" where
  "world0 = \<lparr>tracker_state = 0, sent = [], console = []\<rparr>"

section \<open>Facts about texts\<close>

lemma of_char_of_small: "n < 256 \<Longrightarrow> (of_char (char_of (n::nat)) :: nat) = n"
  by (simp add: of_char_of)

lemma of_char_lt: "(of_char c :: nat) < 256"
  by (rule nat_of_char_less_256)

lemma of_char_lower_char:
  "(of_char (lower_char c) :: nat) =
     (let n = (of_char c :: nat) in
      if (65 \<le> n \<and> n \<le> 90) \<or> (192 \<le> n \<and> n \<le> 222 \<and> n \<noteq> 215) then n + 32 else n)"
proof (cases "(65 \<le> (of_char c :: nat) \<and> (of_char c :: nat) \<le> 90)
      \<or> (192 \<le> (of_char c :: nat) \<and> (of_char c :: nat) \<le> 222 \<and> (of_char c :: nat) \<noteq> 215)")
  case True
  then have l: "lower_char c = char_of ((of_char c :: nat) + 32)"
    unfolding lower_char_def Let_def by (simp only: if_True)
  have "(of_char c :: nat) + 32 < 256" using True by arith
  then have "(of_char (char_of ((of_char c :: nat) + 32)) :: nat) = of_char c + 32"
    by (rule of_char_of_small)
  then show ?thesis unfolding l Let_def using True by (simp only: if_True)
next
  case False
  then have l: "lower_char c = c"
    unfolding lower_char_def Let_def by (simp only: if_False)
  show ?thesis unfolding l Let_def using False by (simp only: if_False)
qed

lemma lower_char_eq_iff:
  "lower_char ch = char_of m \<longleftrightarrow> (of_char (lower_char ch) :: nat) = m" if "m < 256"
proof
  assume "lower_char ch = char_of m"
  then show "(of_char (lower_char ch) :: nat) = m" using that by (simp add: of_char_of_small)
next
  assume "(of_char (lower_char ch) :: nat) = m"
  then have "char_of (of_char (lower_char ch) :: nat) = char_of m" by simp
  then show "lower_char ch = char_of m" by simp
qed

lemma upper_char_letter:
  assumes "65 \<le> k" and "k \<le> 90"
  shows "upper_char ch = [k] \<longleftrightarrow> lower_char ch = char_of (k + 32)"
proof -
  have m: "k + 32 < 256" using assms by arith
  have n: "(of_char ch :: nat) < 256" by (rule of_char_lt)
  show ?thesis
    unfolding lower_char_eq_iff[OF m] of_char_lower_char upper_char_def Let_def
    using assms n by (auto split: if_splits)
qed

lemma upper_char_shape:
  "(\<exists>m. upper_char ch = [m]) \<or> upper_char ch = [83, 83]"
  by (simp add: upper_char_def Let_def)

lemma upper_eq_letters:
  assumes "\<forall>k \<in> set T. 65 \<le> k \<and> k \<le> 90" and "no_double_S T"
  shows "upper c = T \<longleftrightarrow> list_all2 (\<lambda>ch k. lower_char ch = char_of (k + 32)) c T"
  using assms
proof (induction c arbitrary: T)
  case Nil
  show ?case by (auto simp: upper_def)
next
  case (Cons ch c)
  show ?case
  proof (cases T)
    case Nil
    have "upper_char ch \<noteq> []" using upper_char_shape[of ch] by auto
    then show ?thesis using Nil by (simp add: upper_def)
  next
    case (Cons k T')
    have k: "65 \<le> k" "k \<le> 90" using Cons.prems(1) Cons by auto
    have T': "\<forall>k \<in> set T'. 65 \<le> k \<and> k \<le> 90" using Cons.prems(1) Cons by auto
    have nd: "no_double_S T'" using Cons.prems(2) Cons by (cases T') auto
    have ih: "upper c = T' \<longleftrightarrow> list_all2 (\<lambda>ch k. lower_char ch = char_of (k + 32)) c T'"
      by (rule Cons.IH[OF T' nd])
    from upper_char_shape[of ch] show ?thesis
    proof
      assume "\<exists>m. upper_char ch = [m]"
      then obtain m where m: "upper_char ch = [m]" by blast
      have "upper (ch # c) = T \<longleftrightarrow> m = k \<and> upper c = T'"
        using m Cons by (simp add: upper_def)
      also have "m = k \<longleftrightarrow> lower_char ch = char_of (k + 32)"
        using upper_char_letter[OF k, of ch] m by simp
      finally show ?thesis using ih Cons by simp
    next
      assume s: "upper_char ch = [83, 83]"
      have "upper (ch # c) \<noteq> T"
      proof
        assume "upper (ch # c) = T"
        then have "83 # 83 # upper c = k # T'" using s Cons by (simp add: upper_def)
        then have "k = 83" "\<exists>r. T' = 83 # r" by auto
        then show False using Cons.prems(2) Cons by auto
      qed
      moreover have "lower_char ch \<noteq> char_of (k + 32)"
        using upper_char_letter[OF k, of ch] s by simp
      ultimately show ?thesis using Cons by simp
    qed
  qed
qed

lemma lower_literals:
  "lower ''human'' = ''human''" "lower ''manus'' = ''manus''" "lower ''split'' = ''split''"
  by code_simp+

lemma upper_is:
  "upper c = codes ''HUMAN'' \<longleftrightarrow> ci_eq c ''human''"
  "upper c = codes ''MANUS'' \<longleftrightarrow> ci_eq c ''manus''"
  "upper c = codes ''SPLIT'' \<longleftrightarrow> ci_eq c ''split''"
proof -
  let ?f = "\<lambda>k::nat. char_of (k + 32) :: char"
  have g: "list_all2 (\<lambda>ch k. lower_char ch = ?f k) c T \<longleftrightarrow> lower c = map ?f T"
    for T :: "nat list"
    unfolding lower_def by (induction c T rule: list_induct2') auto
  have u: "upper c = T \<longleftrightarrow> lower c = map ?f T"
    if "\<forall>k \<in> set T. 65 \<le> k \<and> k \<le> 90" and "no_double_S T" for T
    using upper_eq_letters[OF that, of c] g[of T] by (simp only:)
  have h: "upper c = [72, 85, 77, 65, 78] \<longleftrightarrow> lower c = map ?f [72, 85, 77, 65, 78]"
    by (rule u) simp_all
  have m: "upper c = [77, 65, 78, 85, 83] \<longleftrightarrow> lower c = map ?f [77, 65, 78, 85, 83]"
    by (rule u) simp_all
  have s: "upper c = [83, 80, 76, 73, 84] \<longleftrightarrow> lower c = map ?f [83, 80, 76, 73, 84]"
    by (rule u) simp_all
  have a: "codes ''HUMAN'' = [72, 85, 77, 65, 78]" "codes ''MANUS'' = [77, 65, 78, 85, 83]"
    "codes ''SPLIT'' = [83, 80, 76, 73, 84]" by (simp_all add: codes_def)
  have b: "map ?f [72, 85, 77, 65, 78] = ''human''" "map ?f [77, 65, 78, 85, 83] = ''manus''"
    "map ?f [83, 80, 76, 73, 84] = ''split''" by code_simp+
  show "upper c = codes ''HUMAN'' \<longleftrightarrow> ci_eq c ''human''"
    unfolding a ci_eq_def lower_literals using h by (simp only: b)
  show "upper c = codes ''MANUS'' \<longleftrightarrow> ci_eq c ''manus''"
    unfolding a ci_eq_def lower_literals using m by (simp only: b)
  show "upper c = codes ''SPLIT'' \<longleftrightarrow> ci_eq c ''split''"
    unfolding a ci_eq_def lower_literals using s by (simp only: b)
qed

lemma upper_char_no_lower: "k \<in> set (upper_char ch) \<Longrightarrow> \<not> (97 \<le> k \<and> k \<le> 122)"
  by (auto simp: upper_char_def Let_def split: if_splits)

lemma upper_no_lower: "k \<in> set (upper c) \<Longrightarrow> \<not> (97 \<le> k \<and> k \<le> 122)"
  unfolding upper_def using upper_char_no_lower by auto

lemma upper_char_ascii:
  assumes "(of_char ch :: nat) < 128"
  shows "\<exists>k. upper_char ch = [k] \<and> k < 128 \<and> lower_char (char_of k) = lower_char ch"
proof (cases "97 \<le> (of_char ch :: nat) \<and> (of_char ch :: nat) \<le> 122")
  case True
  then have u: "upper_char ch = [(of_char ch :: nat) - 32]"
    by (simp add: upper_char_def Let_def)
  let ?k = "(of_char ch :: nat) - 32"
  have k: "65 \<le> ?k \<and> ?k \<le> 90" using True by arith
  have o: "(of_char (char_of ?k) :: nat) = ?k" using k by (intro of_char_of_small) arith
  have "lower_char (char_of ?k) = char_of (?k + 32)"
    unfolding lower_char_def Let_def o using k by simp
  also have "?k + 32 = of_char ch" using True by arith
  finally have "lower_char (char_of ?k) = ch" by simp
  moreover have "lower_char ch = ch" using True by (auto simp: lower_char_def Let_def)
  ultimately show ?thesis using u k by auto
next
  case False
  then have "upper_char ch = [of_char ch]" using assms by (auto simp: upper_char_def Let_def)
  then show ?thesis using assms by simp
qed

lemma upper_ascii:
  assumes "\<forall>ch \<in> set c. (of_char ch :: nat) < 128"
  shows "length (upper c) = length c \<and> lower (map char_of (upper c)) = lower c"
  using assms
proof (induction c)
  case Nil
  show ?case by (simp add: upper_def lower_def)
next
  case (Cons ch c)
  then obtain k where "upper_char ch = [k]" "lower_char (char_of k) = lower_char ch"
    using upper_char_ascii[of ch] by auto
  then show ?case using Cons by (simp add: upper_def lower_def)
qed

lemma strip_parts:
  "\<exists>l r. e = l @ strip e @ r \<and> (\<forall>ch \<in> set l. is_space ch) \<and> (\<forall>ch \<in> set r. is_space ch)
         \<and> (strip e \<noteq> [] \<longrightarrow> \<not> is_space (hd (strip e)) \<and> \<not> is_space (last (strip e)))"
proof -
  let ?l = "takeWhile is_space e"
  let ?m = "dropWhile is_space e"
  let ?r = "rev (takeWhile is_space (rev ?m))"
  have m: "?m = strip e @ ?r"
  proof -
    have "rev (dropWhile is_space xs) @ rev (takeWhile is_space xs) = rev xs" for xs :: string
      by (metis rev_append takeWhile_dropWhile_id)
    from this[of "rev ?m"] show ?thesis by (simp only: strip_def rev_rev_ident)
  qed
  have e: "e = ?l @ strip e @ ?r" using m by (metis takeWhile_dropWhile_id)
  have l: "\<forall>ch \<in> set ?l. is_space ch" by (auto dest: set_takeWhileD)
  have r: "\<forall>ch \<in> set ?r. is_space ch" by (auto dest: set_takeWhileD)
  have h: "\<not> is_space (hd (strip e)) \<and> \<not> is_space (last (strip e))" if n: "strip e \<noteq> []"
  proof -
    have mn: "?m \<noteq> []" using m n by (metis append_is_Nil_conv)
    have "hd (strip e) = hd ?m" using m n by (metis hd_append2)
    moreover have "\<not> is_space (hd ?m)" using mn by (rule hd_dropWhile)
    moreover have d: "dropWhile is_space (rev ?m) \<noteq> []"
      using n unfolding strip_def by (metis rev_is_Nil_conv)
    have "last (strip e) = hd (dropWhile is_space (rev ?m))"
      unfolding strip_def using d by (metis last_rev)
    moreover have "\<not> is_space (hd (dropWhile is_space (rev ?m)))" using d by (rule hd_dropWhile)
    ultimately show ?thesis by simp
  qed
  show ?thesis using e l r h by blast
qed

lemma sublist_map_iff:
  "sublist kw (map f a) \<longleftrightarrow> (\<exists>w. sublist w a \<and> map f w = kw)"
proof
  assume "sublist kw (map f a)"
  then obtain ps ss where e: "map f a = ps @ kw @ ss" by (auto simp: sublist_def)
  let ?w = "take (length kw) (drop (length ps) a)"
  have "map f ?w = take (length kw) (drop (length ps) (map f a))"
    by (simp add: take_map drop_map)
  then have "map f ?w = kw" by (simp add: e)
  moreover have "a = take (length ps) a @ ?w @ drop (length kw) (drop (length ps) a)"
    by (simp only: append_take_drop_id)
  then have "sublist ?w a" unfolding sublist_def by blast
  ultimately have "sublist ?w a \<and> map f ?w = kw" by simp
  then show "\<exists>w. sublist w a \<and> map f w = kw" by blast
next
  assume "\<exists>w. sublist w a \<and> map f w = kw"
  then show "sublist kw (map f a)" by (auto intro: map_mono_sublist)
qed

subsection \<open>Splitting and joining\<close>

lemma split_not_Nil: "split sep s \<noteq> []"
  by (induction sep s rule: split.induct) (auto split: list.splits)

lemma join_Cons_Cons: "join sep ((c # p) # ps) = c # join sep (p # ps)"
  by (cases ps) auto

lemma join_Nil_Cons: "xs \<noteq> [] \<Longrightarrow> join sep ([] # xs) = sep @ join sep xs"
  by (cases xs) auto

lemma join_split: "join sep (split sep s) = s"
proof (induction sep s rule: split.induct)
  case (1 sep)
  show ?case by simp
next
  case (2 sep c cs)
  show ?case
  proof (cases "sep \<noteq> [] \<and> prefix sep (c # cs)")
    case True
    then obtain r where r: "c # cs = sep @ r" by (auto simp: prefix_def)
    then have d: "drop (length sep) (c # cs) = r" by simp
    have "join sep (split sep (c # cs)) = sep @ join sep (split sep (drop (length sep) (c # cs)))"
      using True by (simp add: join_Nil_Cons split_not_Nil)
    also have "\<dots> = sep @ r" using 2(1)[OF True] d by simp
    finally show ?thesis using r by simp
  next
    case False
    obtain p ps where s: "split sep cs = p # ps"
      using split_not_Nil[of sep cs] by (cases "split sep cs") auto
    have "join sep (split sep (c # cs)) = c # join sep (p # ps)"
      using False s by (auto simp: join_Cons_Cons)
    also have "\<dots> = c # cs" using 2(2)[OF False] s by simp
    finally show ?thesis .
  qed
qed

lemma prefix_hd_split: "split sep s = p # ps \<Longrightarrow> prefix p s"
proof -
  assume a: "split sep s = p # ps"
  have "s = join sep (p # ps)" using join_split[of sep s] a by simp
  then show "prefix p s" by (cases ps) auto
qed

lemma split_no_sep: "sep \<noteq> [] \<Longrightarrow> p \<in> set (split sep s) \<Longrightarrow> \<not> sublist sep p"
proof (induction sep s arbitrary: p rule: split.induct)
  case (1 sep)
  then show ?case by simp
next
  case (2 sep c cs)
  show ?case
  proof (cases "sep \<noteq> [] \<and> prefix sep (c # cs)")
    case True
    then have "p = [] \<or> p \<in> set (split sep (drop (length sep) (c # cs)))"
      using 2(4) by auto
    then show ?thesis using 2(1)[OF True 2(3)] 2(3) by auto
  next
    case False
    obtain q qs where s: "split sep cs = q # qs"
      using split_not_Nil[of sep cs] by (cases "split sep cs") auto
    have np: "\<not> prefix sep (c # cs)" using False 2(3) by simp
    from s False 2(4) have "p = c # q \<or> p \<in> set qs" by auto
    then show ?thesis
    proof
      assume p: "p = c # q"
      have q: "\<not> sublist sep q" using 2(2)[OF False 2(3), of q] s by simp
      have "prefix (c # q) (c # cs)" using prefix_hd_split[OF s] by simp
      then have "\<not> prefix sep (c # q)" using np prefix_order.trans by blast
      then show ?thesis using q p by (simp add: sublist_Cons_right)
    next
      assume "p \<in> set qs"
      then show ?thesis using 2(2)[OF False 2(3), of p] s by simp
    qed
  qed
qed

lemma split_Cons_other:
  assumes "\<not> prefix sep (c # cs)"
  shows "split sep (c # cs) = (case split sep cs of [] \<Rightarrow> [[c]] | p # ps \<Rightarrow> (c # p) # ps)"
  by (subst split.simps(2)) (simp only: assms simp_thms if_False)

lemma split_Cons_sep:
  assumes "sep \<noteq> []" and "prefix sep (c # cs)"
  shows "split sep (c # cs) = [] # split sep (drop (length sep) (c # cs))"
  by (subst split.simps(2)) (simp only: assms simp_thms if_True not_False_eq_True)

lemma split_piece:
  assumes "a \<noteq> b" and "\<not> sublist [a, b] e"
  shows "split [a, b] (e @ [a, b] @ rest) = e # split [a, b] rest"
  using assms(2)
proof (induction e)
  case Nil
  have "split [a, b] (a # b # rest) = [] # split [a, b] (drop (length [a, b]) (a # b # rest))"
    by (rule split_Cons_sep) simp_all
  then show ?case by (simp del: split.simps)
next
  case (Cons c e)
  have e: "\<not> sublist [a, b] e" using Cons.prems by (simp add: sublist_Cons_right)
  have np: "\<not> prefix [a, b] (c # (e @ [a, b] @ rest))"
  proof
    assume p: "prefix [a, b] (c # (e @ [a, b] @ rest))"
    show False
    proof (cases e)
      case Nil
      then show False using p assms(1) by simp
    next
      case (Cons d e')
      then have "c = a \<and> d = b" using p by simp
      then have "prefix [a, b] (c # e)" using Cons by simp
      then show False using Cons.prems by (simp add: sublist_Cons_right)
    qed
  qed
  have "split [a, b] (c # (e @ [a, b] @ rest))
      = (case split [a, b] (e @ [a, b] @ rest) of [] \<Rightarrow> [[c]] | p # ps \<Rightarrow> (c # p) # ps)"
    by (rule split_Cons_other[OF np])
  also have "\<dots> = (c # e) # split [a, b] rest"
    by (simp only: Cons.IH[OF e] list.case)
  finally show ?case by (simp del: split.simps)
qed

lemma split_last_piece:
  assumes "\<not> sublist [a, b] e"
  shows "split [a, b] e = [e]"
  using assms
proof (induction e)
  case Nil
  show ?case by simp
next
  case (Cons c e)
  have e: "\<not> sublist [a, b] e" using Cons.prems by (simp add: sublist_Cons_right)
  have np: "\<not> prefix [a, b] (c # e)" using Cons.prems by (simp add: sublist_Cons_right)
  show ?case
    unfolding split_Cons_other[OF np] by (simp only: Cons.IH[OF e] list.case)
qed

lemma split_join:
  assumes "a \<noteq> b"
  shows "es \<noteq> [] \<Longrightarrow> \<forall>e \<in> set es. \<not> sublist [a, b] e \<Longrightarrow>
           split [a, b] (join [a, b] es) = es"
proof (induction es)
  case Nil
  then show ?case by simp
next
  case (Cons x es)
  have x: "\<not> sublist [a, b] x" using Cons.prems(2) by simp
  show ?case
  proof (cases es)
    case Nil
    have "join [a, b] [x] = x" by simp
    then show ?thesis using Nil split_last_piece[OF x] by (simp del: split.simps)
  next
    case (Cons y ys)
    have j: "join [a, b] (x # es) = x @ [a, b] @ join [a, b] es" unfolding Cons by simp
    have "es \<noteq> []" using Cons by simp
    moreover have "\<forall>e \<in> set es. \<not> sublist [a, b] e" using Cons.prems(2) by simp
    ultimately have "split [a, b] (join [a, b] es) = es" by (rule Cons.IH)
    then show ?thesis unfolding j split_piece[OF assms x] by (simp del: split.simps)
  qed
qed

section \<open>Properties of the labels\<close>

lemma status_labels_hd: "l \<in> set (status_labels v) \<Longrightarrow> take 1 l = ''s''"
  by (auto simp: status_labels_def split: option.splits if_splits)

lemma phase_labels_hd: "l \<in> set (phase_labels v) \<Longrightarrow> take 1 l = ''p''"
  by (auto simp: phase_labels_def split: option.splits if_splits)

lemma automation_labels_hd: "l \<in> set (automation_labels v) \<Longrightarrow> take 1 l = ''a''"
  by (auto simp: automation_labels_def split: option.splits if_splits)

lemma role_labels_hd: "l \<in> set (role_labels v) \<Longrightarrow> take 1 l = ''r''"
  by (auto simp: role_labels_def split: option.splits if_splits)

lemma distinct_role_labels: "distinct (role_labels v)"
  by (auto simp: role_labels_def split: option.splits)

lemma distinct_status_labels: "distinct (status_labels v)"
  by (auto simp: status_labels_def split: option.splits)

lemma distinct_phase_labels: "distinct (phase_labels v)"
  by (auto simp: phase_labels_def split: option.splits)

lemma distinct_automation_labels: "distinct (automation_labels v)"
  by (auto simp: automation_labels_def split: option.splits)

text \<open>
  C9. Whatever the fields of a record hold, also when all of them are empty or
  \<open>None\<close>, the list of its labels has the label \<open>task\<close> exactly once.
\<close>

theorem task_label_once: "count_list (get_labels_for_task t) ''task'' = 1"
proof -
  have "''task'' \<notin> set (status_labels v)" for v using status_labels_hd[of "''task''" v] by auto
  moreover have "''task'' \<notin> set (phase_labels v)" for v using phase_labels_hd[of "''task''" v] by auto
  moreover have "''task'' \<notin> set (automation_labels v)" for v using automation_labels_hd[of "''task''" v] by auto
  moreover have "''task'' \<notin> set (role_labels v)" for v using role_labels_hd[of "''task''" v] by auto
  ultimately show ?thesis
    by (simp add: get_labels_for_task_def count_list_0_iff)
qed

text \<open>
  C10. The list of labels of a record has no entry twice, and its last entry is
  \<open>task\<close>.
\<close>

theorem labels_distinct_task_last:
  "distinct (get_labels_for_task t) \<and> last (get_labels_for_task t) = ''task''"
proof -
  have "distinct (get_labels_for_task t)"
    unfolding get_labels_for_task_def
    by (auto simp: distinct_role_labels distinct_status_labels distinct_phase_labels distinct_automation_labels
          dest!: status_labels_hd phase_labels_hd automation_labels_hd role_labels_hd)
  then show ?thesis by (simp add: get_labels_for_task_def)
qed

lemma not_prefix_status:
  "take (Suc 0) l = [c] \<Longrightarrow> c \<noteq> CHR ''s'' \<Longrightarrow> \<not> prefix ''status:'' l"
  by (cases l) auto

lemma filter_status_other:
  "filter (prefix ''status:'')
      (phase_labels p @ automation_labels c @ role_labels a @ [''task'']) = []"
  by (auto simp: filter_empty_conv
      dest!: phase_labels_hd automation_labels_hd role_labels_hd dest: not_prefix_status)

lemma filter_status_labels: "filter (prefix ''status:'') (status_labels v) = status_labels v"
  by (auto simp: status_labels_def split: option.splits)

lemma status_filter:
  "filter (prefix ''status:'') (get_labels_for_task t) = status_labels (status t)"
  unfolding get_labels_for_task_def filter_append[of _ "status_labels (status t)"]
  by (simp only: filter_status_other filter_status_labels append_Nil2)

lemma lower_In_Progress: "replace_char CHR '' '' CHR ''-'' (lower ''In Progress'') = ''in-progress''"
  by code_simp

text \<open>
  C7. The labels of a record that start with \<open>status:\<close> are, when the status is a
  text that is not empty, the one label \<open>status:\<close> followed by the status in lower case
  with every space replaced by a hyphen; when the status is empty (or \<open>None\<close>) there is
  none; and the status \<open>In Progress\<close> gives exactly \<open>status:in-progress\<close>.
\<close>

theorem status_label:
  "(status t = Some s \<and> s \<noteq> [] \<longrightarrow>
      filter (prefix ''status:'') (get_labels_for_task t)
        = [''status:'' @ replace_char CHR '' '' CHR ''-'' (lower s)])
   \<and> (\<not> truthy (status t) \<longrightarrow> filter (prefix ''status:'') (get_labels_for_task t) = [])
   \<and> (status t = Some ''In Progress'' \<longrightarrow>
      filter (prefix ''status:'') (get_labels_for_task t) = [''status:in-progress''])"
  unfolding status_filter
  by (auto simp: status_labels_def truthy_def lower_In_Progress split: option.splits)

theorem status_label_witness:
  "status example_task = Some ''In Progress'' \<and> ''In Progress'' \<noteq> []
   \<and> filter (prefix ''status:'') (get_labels_for_task example_task) = [''status:in-progress'']
   \<and> \<not> truthy (status (example_task\<lparr>status := Some ''''\<rparr>))
   \<and> filter (prefix ''status:'') (get_labels_for_task (example_task\<lparr>status := Some ''''\<rparr>)) = []
   \<and> filter (prefix ''status:'') (get_labels_for_task (example_task\<lparr>status := None\<rparr>)) = []"
proof -
  have a: "status example_task = Some ''In Progress''"
    by (simp add: example_task_def)
  have b: "\<not> truthy (status (example_task\<lparr>status := Some ''''\<rparr>))"
    and c: "\<not> truthy (status (example_task\<lparr>status := None\<rparr>))"
    by (simp_all add: truthy_def)
  from a b c status_label[of example_task "''In Progress''"]
    status_label[of "example_task\<lparr>status := Some ''''\<rparr>" "''x''"]
    status_label[of "example_task\<lparr>status := None\<rparr>" "''x''"]
  show ?thesis by blast
qed

lemma role_labels_iff:
  "(kw, l) \<in> set role_table \<Longrightarrow>
     l \<in> set (role_labels (Some a)) \<longleftrightarrow> sublist kw (lower a)"
  by (auto simp: role_table_def role_labels_def lower_def)

lemma role_in_labels:
  "(kw, l) \<in> set role_table \<Longrightarrow>
     l \<in> set (get_labels_for_task t) \<longleftrightarrow> l \<in> set (role_labels (assignee t))"
  by (auto simp: role_table_def get_labels_for_task_def
      dest!: status_labels_hd phase_labels_hd automation_labels_hd)

lemma lower_keywords:
  "lower ''technical lead'' = ''technical lead''" "lower ''ai/ml engineer'' = ''ai/ml engineer''"
  "lower ''frontend developer'' = ''frontend developer''"
  "lower ''product manager'' = ''product manager''" "lower ''devops engineer'' = ''devops engineer''"
  by code_simp+

lemma lower_table: "(kw, l) \<in> set role_table \<Longrightarrow> lower kw = kw"
  by (auto simp: role_table_def lower_keywords)

text \<open>
  C6. For a record whose assignee is a text, each role label of the table is among the
  labels exactly when its keyword occurs in the assignee as a piece of consecutive
  characters that equals the keyword when case is ignored; so every keyword that
  occurs contributes its label. In particular an assignee in which both
  \<open>Technical Lead\<close> and \<open>Product Manager\<close> occur, in any case, gets both
  \<open>role:technical-lead\<close> and \<open>role:product-manager\<close>. (The assignee need not even be
  non-empty: in an empty one no keyword occurs and no role label is made.)
\<close>

theorem role_labels_match:
  assumes "assignee t = Some a"
  shows "(\<forall>(kw, l) \<in> set role_table.
            l \<in> set (get_labels_for_task t) \<longleftrightarrow> (\<exists>w. sublist w a \<and> ci_eq w kw))
       \<and> ((\<exists>x y. sublist x a \<and> ci_eq x ''Technical Lead''
                 \<and> sublist y a \<and> ci_eq y ''Product Manager'')
            \<longrightarrow> ''role:technical-lead'' \<in> set (get_labels_for_task t)
              \<and> ''role:product-manager'' \<in> set (get_labels_for_task t))"
proof -
  have each: "l \<in> set (get_labels_for_task t) \<longleftrightarrow> (\<exists>w. sublist w a \<and> ci_eq w kw)"
    if e: "(kw, l) \<in> set role_table" for kw l
  proof -
    have "l \<in> set (get_labels_for_task t) \<longleftrightarrow> sublist kw (lower a)"
      using role_in_labels[OF e, of t] role_labels_iff[OF e, of a] assms by simp
    also have "\<dots> \<longleftrightarrow> (\<exists>w. sublist w a \<and> lower w = kw)"
      unfolding lower_def by (rule sublist_map_iff)
    also have "\<dots> \<longleftrightarrow> (\<exists>w. sublist w a \<and> ci_eq w kw)"
      by (simp add: ci_eq_def lower_table[OF e])
    finally show ?thesis .
  qed
  have tl: "(''technical lead'', ''role:technical-lead'') \<in> set role_table"
    and pm: "(''product manager'', ''role:product-manager'') \<in> set role_table"
    by (simp_all add: role_table_def)
  have c1: "ci_eq x ''Technical Lead'' \<longleftrightarrow> ci_eq x ''technical lead''" for x
    unfolding ci_eq_def by code_simp
  have c2: "ci_eq y ''Product Manager'' \<longleftrightarrow> ci_eq y ''product manager''" for y
    unfolding ci_eq_def by code_simp
  have "\<forall>(kw, l) \<in> set role_table.
            l \<in> set (get_labels_for_task t) \<longleftrightarrow> (\<exists>w. sublist w a \<and> ci_eq w kw)"
    using each by blast
  moreover have "''role:technical-lead'' \<in> set (get_labels_for_task t)
              \<and> ''role:product-manager'' \<in> set (get_labels_for_task t)"
    if "\<exists>x y. sublist x a \<and> ci_eq x ''Technical Lead''
                 \<and> sublist y a \<and> ci_eq y ''Product Manager''"
    using that each[OF tl] each[OF pm] c1 c2 by blast
  ultimately show ?thesis by blast
qed

theorem role_labels_match_witness:
  "assignee example_task = Some ''TECHNICAL Lead and Product manager''
   \<and> ''role:technical-lead'' \<in> set (get_labels_for_task example_task)
   \<and> ''role:product-manager'' \<in> set (get_labels_for_task example_task)"
proof -
  have a: "assignee example_task = Some ''TECHNICAL Lead and Product manager''"
    by (simp add: example_task_def)
  have x: "sublist ''TECHNICAL Lead'' ''TECHNICAL Lead and Product manager''"
    by code_simp
  have y: "sublist ''Product manager'' ''TECHNICAL Lead and Product manager''"
    by code_simp
  have cx: "ci_eq ''TECHNICAL Lead'' ''Technical Lead''" by code_simp
  have cy: "ci_eq ''Product manager'' ''Product Manager''" by code_simp
  from x y cx cy role_labels_match[OF a] a show ?thesis by blast
qed

section \<open>Properties of the body and the title\<close>

text \<open>
  C1. For a record whose automation category is a text: when the category equals
  \<open>human\<close>, \<open>manus\<close> or \<open>split\<close> with case ignored, the body is the overview, then that
  category's fixed block, then the sections from Deliverables to Notes, then that
  category's Definition-of-Done checklist, then the footer; for every other category
  (the empty one too) both texts are empty and the body is the overview, the sections
  and the footer.
\<close>

theorem category_blocks:
  assumes "automation_category t = Some c"
  shows "(ci_eq c ''human'' \<longrightarrow>
            category_sections c = (human_section, human_done)
          \<and> create_issue_body t
              = Inr (body_overview t @ human_section @ body_sections t @ human_done @ body_footer t))
       \<and> (ci_eq c ''manus'' \<longrightarrow>
            category_sections c = (manus_section, manus_done)
          \<and> create_issue_body t
              = Inr (body_overview t @ manus_section @ body_sections t @ manus_done @ body_footer t))
       \<and> (ci_eq c ''split'' \<longrightarrow>
            category_sections c = (split_section, split_done)
          \<and> create_issue_body t
              = Inr (body_overview t @ split_section @ body_sections t @ split_done @ body_footer t))
       \<and> (\<not> ci_eq c ''human'' \<and> \<not> ci_eq c ''manus'' \<and> \<not> ci_eq c ''split'' \<longrightarrow>
            category_sections c = ([], [])
          \<and> create_issue_body t = Inr (body_overview t @ body_sections t @ body_footer t))"
proof -
  have "upper c = codes ''HUMAN'' \<or> upper c = codes ''MANUS'' \<or> upper c = codes ''SPLIT''
     \<or> (upper c \<noteq> codes ''HUMAN'' \<and> upper c \<noteq> codes ''MANUS''
         \<and> upper c \<noteq> codes ''SPLIT'')" by blast
  moreover have "codes ''HUMAN'' \<noteq> codes ''MANUS''" "codes ''HUMAN'' \<noteq> codes ''SPLIT''"
    "codes ''MANUS'' \<noteq> codes ''SPLIT''" by (simp_all add: codes_def)
  ultimately show ?thesis
    unfolding upper_is[symmetric] create_issue_body_def assms category_sections_def
    by auto
qed

theorem category_blocks_witness:
  "automation_category example_task = Some ''Split'' \<and> ci_eq ''Split'' ''split''
   \<and> create_issue_body example_task
       = Inr (body_overview example_task @ split_section @ body_sections example_task
              @ split_done @ body_footer example_task)
   \<and> automation_category (example_task\<lparr>automation_category := Some ''manual''\<rparr>) = Some ''manual''
   \<and> \<not> ci_eq ''manual'' ''human'' \<and> \<not> ci_eq ''manual'' ''manus'' \<and> \<not> ci_eq ''manual'' ''split''
   \<and> category_sections ''manual'' = ([], [])"
proof -
  have a: "automation_category example_task = Some ''Split''"
    by (simp add: example_task_def)
  have b: "ci_eq ''Split'' ''split''" by code_simp
  have c: "automation_category (example_task\<lparr>automation_category := Some ''manual''\<rparr>) = Some ''manual''"
    by simp
  have d: "\<not> ci_eq ''manual'' ''human''" "\<not> ci_eq ''manual'' ''manus''" "\<not> ci_eq ''manual'' ''split''"
    by code_simp+
  from category_blocks[OF a] category_blocks[OF c] a b c d show ?thesis by blast
qed

lemma same_lists: "acceptance_criteria_list = deliverables_list"
  by (rule ext) (simp add: acceptance_criteria_list_def deliverables_list_def)

text \<open>
  C2, as the code has it. For a record whose deliverables, acceptance criteria and
  automation category are texts, the body has, right after the category block, the
  heading \<open>## Deliverables\<close>, the checklist section of the deliverables, the heading
  \<open>## Acceptance Criteria\<close>, the checklist section of the acceptance criteria, made in
  the same way, and then the heading \<open>## Dependencies\<close>. The checklist section of a
  field is the single line \<open>- [ ] To be defined\<close> when the field is empty; otherwise it
  has one item, \<open>- [ ]\<close> and the entry without the whitespace at its ends, for each
  entry of the field, the items joined by line breaks. The entries are the pieces that
  the two-character separator \<open>", "\<close> (a comma and a space) delimits: joined by the
  separator they give the field back, none of them contains the separator, and no other
  list of texts does both. Trimming an entry removes a run of whitespace at each end and
  leaves a text that neither starts nor ends with whitespace.
\<close>

theorem checklist_lines:
  assumes "deliverables t = Some d" and "acceptance_criteria t = Some a"
    and "automation_category t = Some c"
  shows "(\<exists>rest. create_issue_body t =
            Inr (body_overview t @ fst (category_sections c)
                 @ ''\<newline>\<newline>## Deliverables\<newline>'' @ checklist_section d
                 @ ''\<newline>\<newline>## Acceptance Criteria\<newline>'' @ checklist_section a
                 @ ''\<newline>\<newline>## Dependencies\<newline>'' @ rest))
       \<and> checklist_text (deliverables_list (deliverables t)) = checklist_section d
       \<and> checklist_text (acceptance_criteria_list (acceptance_criteria t)) = checklist_section a
       \<and> (d \<noteq> [] \<longrightarrow> deliverables_list (deliverables t) = checklist_items d)
       \<and> checklist_section [] = ''- [ ] To be defined''
       \<and> (\<forall>x. join '', '' (split '', '' x) = x
              \<and> (\<forall>e \<in> set (split '', '' x). \<not> sublist '', '' e)
              \<and> (\<forall>es. es \<noteq> [] \<and> (\<forall>e \<in> set es. \<not> sublist '', '' e) \<and> join '', '' es = x
                    \<longrightarrow> es = split '', '' x))
       \<and> (\<forall>e. \<exists>l r. e = l @ strip e @ r
              \<and> (\<forall>ch \<in> set l. is_space ch) \<and> (\<forall>ch \<in> set r. is_space ch)
              \<and> (strip e \<noteq> [] \<longrightarrow> \<not> is_space (hd (strip e)) \<and> \<not> is_space (last (strip e))))
       \<and> acceptance_criteria_list = deliverables_list"
proof -
  have sd: "checklist_text (deliverables_list (Some x)) = checklist_section x" for x
    by (simp add: deliverables_list_def checklist_text_def checklist_section_def
        checklist_items_def split_not_Nil)
  have sa: "checklist_text (acceptance_criteria_list (Some x)) = checklist_section x" for x
    by (simp add: acceptance_criteria_list_def checklist_text_def checklist_section_def
        checklist_items_def split_not_Nil)
  obtain sec dod where cs: "category_sections c = (sec, dod)" by (cases "category_sections c")
  have body: "create_issue_body t =
      Inr (body_overview t @ sec @ body_sections t @ dod @ body_footer t)"
    by (simp add: create_issue_body_def assms(3) cs)
  have "\<exists>rest. body_sections t @ dod @ body_footer t =
            ''\<newline>\<newline>## Deliverables\<newline>'' @ checklist_section d
            @ ''\<newline>\<newline>## Acceptance Criteria\<newline>'' @ checklist_section a
            @ ''\<newline>\<newline>## Dependencies\<newline>'' @ rest"
    unfolding body_sections_def assms(1,2) sd sa by simp
  then obtain rest where "body_sections t @ dod @ body_footer t =
            ''\<newline>\<newline>## Deliverables\<newline>'' @ checklist_section d
            @ ''\<newline>\<newline>## Acceptance Criteria\<newline>'' @ checklist_section a
            @ ''\<newline>\<newline>## Dependencies\<newline>'' @ rest" by blast
  then have b: "\<exists>rest. create_issue_body t =
            Inr (body_overview t @ fst (category_sections c)
                 @ ''\<newline>\<newline>## Deliverables\<newline>'' @ checklist_section d
                 @ ''\<newline>\<newline>## Acceptance Criteria\<newline>'' @ checklist_section a
                 @ ''\<newline>\<newline>## Dependencies\<newline>'' @ rest)"
    unfolding body cs by (intro exI[of _ rest]) (simp only: fst_conv)
  have u: "es = split '', '' x"
    if "es \<noteq> []" and "\<forall>e \<in> set es. \<not> sublist '', '' e" and "join '', '' es = x" for es x
    using split_join[of "CHR '',''" "CHR '' ''" es] that by simp
  have n: "\<forall>e \<in> set (split '', '' x). \<not> sublist '', '' e" for x
    using split_no_sep[of "'', ''" _ x] by blast
  have i: "deliverables_list (deliverables t) = checklist_items d" if "d \<noteq> []"
    using that assms(1) by (simp add: deliverables_list_def checklist_items_def)
  have e: "checklist_section [] = ''- [ ] To be defined''" by (simp add: checklist_section_def)
  have sp: "\<forall>x. join '', '' (split '', '' x) = x
              \<and> (\<forall>e \<in> set (split '', '' x). \<not> sublist '', '' e)
              \<and> (\<forall>es. es \<noteq> [] \<and> (\<forall>e \<in> set es. \<not> sublist '', '' e) \<and> join '', '' es = x
                    \<longrightarrow> es = split '', '' x)"
    using join_split[of "'', ''"] n u by blast
  have st: "\<forall>e. \<exists>l r. e = l @ strip e @ r
              \<and> (\<forall>ch \<in> set l. is_space ch) \<and> (\<forall>ch \<in> set r. is_space ch)
              \<and> (strip e \<noteq> [] \<longrightarrow> \<not> is_space (hd (strip e)) \<and> \<not> is_space (last (strip e)))"
    using strip_parts by blast
  show ?thesis
    using b sd[of d] sa[of a] i e sp st same_lists unfolding assms(1,2)
    by (intro conjI impI) 
qed

theorem checklist_lines_witness:
  "deliverables example_task = Some ''Project created,  billing enabled , IAM roles''
   \<and> acceptance_criteria example_task = Some []
   \<and> automation_category example_task = Some ''Split''
   \<and> checklist_section ''Project created,  billing enabled , IAM roles''
       = ''- [ ] Project created\<newline>- [ ] billing enabled\<newline>- [ ] IAM roles''
   \<and> (\<exists>body. create_issue_body example_task = Inr body
         \<and> sublist (''\<newline>## Deliverables\<newline>'' @
                     ''- [ ] Project created\<newline>'' @
                     ''- [ ] billing enabled\<newline>'' @
                     ''- [ ] IAM roles\<newline>'' @
                     ''\<newline>## Acceptance Criteria\<newline>'' @
                     ''- [ ] To be defined\<newline>'' @
                     ''\<newline>## Dependencies\<newline>'') body)"
proof -
  have a: "deliverables example_task = Some ''Project created,  billing enabled , IAM roles''"
    and b: "acceptance_criteria example_task = Some []"
    and c: "automation_category example_task = Some ''Split''"
    by (simp_all add: example_task_def)
  have s: "checklist_section ''Project created,  billing enabled , IAM roles''
       = ''- [ ] Project created\<newline>- [ ] billing enabled\<newline>- [ ] IAM roles''"
    by code_simp
  have e: "checklist_section [] = ''- [ ] To be defined''" by (simp add: checklist_section_def)
  from checklist_lines[OF a b c, THEN conjunct1] obtain rest where
    r: "create_issue_body example_task =
            Inr (body_overview example_task @ fst (category_sections ''Split'')
                 @ ''\<newline>\<newline>## Deliverables\<newline>''
                 @ checklist_section ''Project created,  billing enabled , IAM roles''
                 @ ''\<newline>\<newline>## Acceptance Criteria\<newline>'' @ checklist_section []
                 @ ''\<newline>\<newline>## Dependencies\<newline>'' @ rest)" by blast
  let ?x = "''\<newline>## Deliverables\<newline>'' @
                     ''- [ ] Project created\<newline>'' @
                     ''- [ ] billing enabled\<newline>'' @
                     ''- [ ] IAM roles\<newline>'' @
                     ''\<newline>## Acceptance Criteria\<newline>'' @
                     ''- [ ] To be defined\<newline>'' @
                     ''\<newline>## Dependencies\<newline>''"
  have "body_overview example_task @ fst (category_sections ''Split'')
                 @ ''\<newline>\<newline>## Deliverables\<newline>''
                 @ checklist_section ''Project created,  billing enabled , IAM roles''
                 @ ''\<newline>\<newline>## Acceptance Criteria\<newline>'' @ checklist_section []
                 @ ''\<newline>\<newline>## Dependencies\<newline>'' @ rest
        = (body_overview example_task @ fst (category_sections ''Split'') @ ''\<newline>'') @ ?x @ rest"
    unfolding s e by simp
  then have "sublist ?x (body_overview example_task @ fst (category_sections ''Split'')
                 @ ''\<newline>\<newline>## Deliverables\<newline>''
                 @ checklist_section ''Project created,  billing enabled , IAM roles''
                 @ ''\<newline>\<newline>## Acceptance Criteria\<newline>'' @ checklist_section []
                 @ ''\<newline>\<newline>## Dependencies\<newline>'' @ rest)"
    unfolding sublist_def by blast
  with r have "\<exists>body. create_issue_body example_task = Inr body \<and> sublist ?x body" by blast
  with a b c s show ?thesis by (intro conjI)
qed

text \<open>
  C2 as stated fails: the deliverables \<open>a,b\<close> have the two comma-separated entries
  \<open>a\<close> and \<open>b\<close>, which would be two checklist items, and the program makes the single
  item \<open>- [ ] a,b\<close>, since no comma in the text is followed by a space.
\<close>

theorem checklist_comma_counterexample:
  "deliverables_list (Some ''a,b'') = [''- [ ] a,b'']
   \<and> comma_checklist ''a,b'' = [''- [ ] a'', ''- [ ] b'']"
  by code_simp

section \<open>Properties of the run\<close>

lemma sent_say [simp]: "sent (say l w) = sent w"
  and tracker_state_say [simp]: "tracker_state (say l w) = tracker_state w"
  and console_say [simp]: "console (say l w) = console w @ [l]"
  by (simp_all add: say_def)

lemma post_eq:
  "tr (tracker_state w) q = (r, s) \<Longrightarrow>
     post tr q w = (r, w\<lparr>tracker_state := s, sent := sent w @ [q]\<rparr>)"
  by (simp add: post_def)

lemma post_result:
  "post tr q w = (r, w1) \<Longrightarrow> sent w1 = sent w @ [q] \<and> console w1 = console w"
  by (auto simp: post_def split: prod.splits)

lemma subscript_truthy: "subscript v key = Some n \<Longrightarrow> json_truthy v"
  by (cases v) auto

lemma create_issue_step:
  assumes "issue_data t = Inr q" and "tr (tracker_state w) q = (r, s)"
  shows "\<exists>issue w'. create_issue tr t w = (Inr issue, w')
           \<and> sent w' = sent w @ [q] \<and> tracker_state w' = s
           \<and> prefix (console w) (console w')
           \<and> (case issue of None \<Rightarrow> False | Some v \<Rightarrow> json_truthy v) = issue_accepted r"
proof (cases r)
  case Raises
  then show ?thesis using assms by (simp add: create_issue_def post_eq)
next
  case (Response code body js)
  then show ?thesis using assms
    by (auto simp: create_issue_def post_eq subscript_truthy split: option.splits)
qed

lemma issues_loop_run:
  assumes "map issue_data ts = map Inr qs"
  shows "\<exists>a b w'. issues_loop tr ts sc fc w = (Inr (sc + a, fc + b), w')
           \<and> sent w' = sent w @ qs
           \<and> prefix (console w) (console w')
           \<and> a = length (filter issue_accepted (replies tr (tracker_state w) qs))
           \<and> a + b = length ts"
  using assms
proof (induction ts arbitrary: qs sc fc w)
  case Nil
  then show ?case by simp
next
  case (Cons t ts)
  then obtain q qs' where qs: "qs = q # qs'" and q: "issue_data t = Inr q"
    and rest: "map issue_data ts = map Inr qs'"
    by (cases qs) auto
  obtain r s where trq: "tr (tracker_state w) q = (r, s)" by (cases "tr (tracker_state w) q")
  from create_issue_step[where tr = tr and w = w, OF q trq] obtain issue w1 where
    c: "create_issue tr t w = (Inr issue, w1)" and s1: "sent w1 = sent w @ [q]"
    and t1: "tracker_state w1 = s" and p1: "prefix (console w) (console w1)"
    and acc: "(case issue of None \<Rightarrow> False | Some v \<Rightarrow> json_truthy v) = issue_accepted r"
    by blast
  show ?case
  proof (cases "issue_accepted r")
    case True
    from Cons.IH[OF rest, of "sc + 1" fc w1] obtain a b w' where
      l: "issues_loop tr ts (sc + 1) fc w1 = (Inr (sc + 1 + a, fc + b), w')"
      and s: "sent w' = sent w1 @ qs'" and p: "prefix (console w1) (console w')"
      and a: "a = length (filter issue_accepted (replies tr (tracker_state w1) qs'))"
      and ab: "a + b = length ts" by blast
    have "issues_loop tr (t # ts) sc fc w = (Inr (sc + (a + 1), fc + b), w')"
      using c acc True l by simp
    moreover have "sent w' = sent w @ qs" using s s1 qs by simp
    moreover have "prefix (console w) (console w')" using p p1 by auto
    moreover have "a + 1 = length (filter issue_accepted (replies tr (tracker_state w) qs))"
      using a t1 trq True qs by simp
    moreover have "a + 1 + b = length (t # ts)" using ab by simp
    ultimately show ?thesis by blast
  next
    case False
    from Cons.IH[OF rest, of sc "fc + 1" w1] obtain a b w' where
      l: "issues_loop tr ts sc (fc + 1) w1 = (Inr (sc + a, fc + 1 + b), w')"
      and s: "sent w' = sent w1 @ qs'" and p: "prefix (console w1) (console w')"
      and a: "a = length (filter issue_accepted (replies tr (tracker_state w1) qs'))"
      and ab: "a + b = length ts" by blast
    have "issues_loop tr (t # ts) sc fc w = (Inr (sc + a, fc + (b + 1)), w')"
      using c acc False l by simp
    moreover have "sent w' = sent w @ qs" using s s1 qs by simp
    moreover have "prefix (console w) (console w')" using p p1 by auto
    moreover have "a = length (filter issue_accepted (replies tr (tracker_state w) qs))"
      using a t1 trq False qs by simp
    moreover have "a + (b + 1) = length (t # ts)" using ab by simp
    ultimately show ?thesis by blast
  qed
qed

text \<open>
  C8. For a record whose identifier, name and automation category are texts, the title
  is the identifier, a colon and a space, the category in upper case between square
  brackets, a space, and the name; the request that \<open>create_issue\<close> builds and posts
  carries this title, with the body and the labels of the record. The category in upper
  case has no lower-case letter from a to z; when the category is ASCII text it has the
  length of the category and equals it when case is ignored.
\<close>

theorem title_format:
  assumes "task_id t = Some i" and "task_name t = Some n" and "automation_category t = Some c"
  shows "issue_title t = Inr (codes i @ codes '': ['' @ upper c @ codes ''] '' @ codes n)
       \<and> (\<exists>body. create_issue_body t = Inr body
             \<and> issue_data t
                 = Inr (Post_issue (codes i @ codes '': ['' @ upper c @ codes ''] '' @ codes n)
                          body (get_labels_for_task t))
             \<and> sent (snd (create_issue tr t w))
                 = sent w @ [Post_issue (codes i @ codes '': ['' @ upper c @ codes ''] '' @ codes n)
                               body (get_labels_for_task t)])
       \<and> (\<forall>k \<in> set (upper c). \<not> (97 \<le> k \<and> k \<le> 122))
       \<and> ((\<forall>ch \<in> set c. (of_char ch :: nat) < 128) \<longrightarrow>
            length (upper c) = length c \<and> lower (map char_of (upper c)) = lower c)"
proof -
  let ?title = "codes i @ codes '': ['' @ upper c @ codes ''] '' @ codes n"
  have ti: "issue_title t = Inr ?title"
    using assms by (simp add: issue_title_def fstr_def)
  obtain body where bo: "create_issue_body t = Inr body"
    by (cases "category_sections c") (simp add: create_issue_body_def assms(3))
  have d: "issue_data t = Inr (Post_issue ?title body (get_labels_for_task t))"
    by (simp add: issue_data_def ti bo)
  obtain r s where trq: "tr (tracker_state w) (Post_issue ?title body (get_labels_for_task t)) = (r, s)"
    by (cases "tr (tracker_state w) (Post_issue ?title body (get_labels_for_task t))")
  from create_issue_step[where tr = tr and w = w, OF d trq]
  have se: "sent (snd (create_issue tr t w))
      = sent w @ [Post_issue ?title body (get_labels_for_task t)]" by auto
  have nl: "\<forall>k \<in> set (upper c). \<not> (97 \<le> k \<and> k \<le> 122)"
    using upper_no_lower by blast
  have as: "length (upper c) = length c \<and> lower (map char_of (upper c)) = lower c"
    if "\<forall>ch \<in> set c. (of_char ch :: nat) < 128"
    using upper_ascii[OF that] .
  from bo d se have "\<exists>body. create_issue_body t = Inr body
             \<and> issue_data t = Inr (Post_issue ?title body (get_labels_for_task t))
             \<and> sent (snd (create_issue tr t w))
                 = sent w @ [Post_issue ?title body (get_labels_for_task t)]" by blast
  with ti nl as show ?thesis by blast
qed

theorem title_format_witness:
  "task_id example_task = Some ''T-7'' \<and> task_name example_task = Some ''Set up hosting''
   \<and> automation_category example_task = Some ''Split''
   \<and> issue_title example_task = Inr (codes ''T-7: [SPLIT] Set up hosting'')
   \<and> (\<exists>body. issue_data example_task
         = Inr (Post_issue (codes ''T-7: [SPLIT] Set up hosting'') body
                  (get_labels_for_task example_task)))
   \<and> automation_category (example_task\<lparr>automation_category := Some [CHR 0xDF]\<rparr>)
       = Some [CHR 0xDF]
   \<and> issue_title (example_task\<lparr>automation_category := Some [CHR 0xDF]\<rparr>)
       = Inr (codes ''T-7: [SS] Set up hosting'')"
proof -
  let ?t2 = "example_task\<lparr>automation_category := Some [CHR 0xDF]\<rparr>"
  have a: "task_id example_task = Some ''T-7''"
    and b: "task_name example_task = Some ''Set up hosting''"
    and c: "automation_category example_task = Some ''Split''"
    by (simp_all add: example_task_def)
  have a2: "task_id ?t2 = Some ''T-7''" and b2: "task_name ?t2 = Some ''Set up hosting''"
    and c2: "automation_category ?t2 = Some [CHR 0xDF]"
    by (simp_all add: example_task_def)
  have u: "codes ''T-7'' @ codes '': ['' @ upper ''Split'' @ codes ''] '' @ codes ''Set up hosting''
      = codes ''T-7: [SPLIT] Set up hosting''" by code_simp
  have u2: "codes ''T-7'' @ codes '': ['' @ upper [CHR 0xDF] @ codes ''] '' @ codes ''Set up hosting''
      = codes ''T-7: [SS] Set up hosting''" by code_simp
  note t1 = title_format[OF a b c, of tracker_conflict world0, unfolded u]
  note t2 = title_format[OF a2 b2 c2, of tracker_conflict world0, unfolded u2]
  have x: "issue_title example_task = Inr (codes ''T-7: [SPLIT] Set up hosting'')"
    using t1 by (rule conjunct1)
  have y: "\<exists>body. issue_data example_task
         = Inr (Post_issue (codes ''T-7: [SPLIT] Set up hosting'') body
                  (get_labels_for_task example_task))"
    using t1[THEN conjunct2, THEN conjunct1] by blast
  have z: "issue_title ?t2 = Inr (codes ''T-7: [SS] Set up hosting'')"
    using t2 by (rule conjunct1)
  from a b c x y c2 z show ?thesis by (intro conjI)
qed



lemma create_issues_run:
  assumes "map issue_data tasks = map Inr qs"
  shows "\<exists>created failed w'.
           create_issues tr tasks w = (Inr (created, failed, length tasks), w')
         \<and> sent w' = sent w @ qs
         \<and> created = length (filter issue_accepted (replies tr (tracker_state w) qs))
         \<and> created + failed = length tasks
         \<and> (\<exists>ls. console w' = ls @ [Summary_head, Summary_created created,
                                     Summary_failed failed, Summary_total (length tasks)])"
proof -
  from issues_loop_run[OF assms, of tr 0 0 "say Issues_begin w"] obtain a b w1 where
    l: "issues_loop tr tasks 0 0 (say Issues_begin w) = (Inr (a, b), w1)"
    and s: "sent w1 = sent w @ qs"
    and a: "a = length (filter issue_accepted (replies tr (tracker_state w) qs))"
    and ab: "a + b = length tasks" by auto
  let ?w' = "say (Summary_total (length tasks))
             (say (Summary_failed b) (say (Summary_created a) (say Summary_head w1)))"
  have "create_issues tr tasks w = (Inr (a, b, length tasks), ?w')"
    using l by (simp add: create_issues_def)
  moreover have "sent ?w' = sent w @ qs" using s by simp
  moreover have "console ?w' = console w1 @ [Summary_head, Summary_created a,
                                     Summary_failed b, Summary_total (length tasks)]" by simp
  ultimately show ?thesis using a ab by blast
qed




subsection \<open>Labels and milestones\<close>

lemma create_label_sent: "sent (create_label tr l w) = sent w @ [label_request l]"
  by (auto simp: create_label_def split: prod.splits dest: post_result)

lemma fold_create_label_sent:
  "sent (fold (create_label tr) ls w) = sent w @ map label_request ls"
  by (induction ls arbitrary: w) (simp_all add: create_label_sent)

lemma create_labels_sent: "sent (create_labels tr w) = sent w @ map label_request labels_to_create"
  by (simp add: create_labels_def fold_create_label_sent)

lemma create_milestone_sent:
  "sent (snd (create_milestone tr n d due w)) = sent w @ [milestone_request (n, d, due)]"
  by (auto simp: create_milestone_def split: prod.splits reply.splits option.splits
      dest: post_result)

lemma fold_create_milestone_sent:
  "sent (fold (\<lambda>m w. case m of (name, description, due_date) \<Rightarrow>
                  snd (create_milestone tr name description due_date w)) ms w)
     = sent w @ map milestone_request ms"
  by (induction ms arbitrary: w) (auto simp: create_milestone_sent)

lemma create_milestones_sent:
  "sent (create_milestones tr w) = sent w @ map milestone_request milestones"
  by (simp add: create_milestones_def fold_create_milestone_sent)





subsection \<open>The reader\<close>

lemma read_ok:
  "fs p = Csv rows \<Longrightarrow> read_rows (dict_reader rows) = Inr tasks \<Longrightarrow>
     read_tasks_from_csv fs p w = (Inr tasks, w)"
  by (simp add: read_tasks_from_csv_def)

lemma read_Inr_world: "read_tasks_from_csv fs p w = (Inr tasks, w1) \<Longrightarrow> w1 = w"
  by (auto simp: read_tasks_from_csv_def split: input_file.splits sum.splits)

lemma process_all_tasks_run:
  assumes r: "read_tasks_from_csv fs p (say (Reading p) w) = (Inr tasks, w1)"
    and q: "map issue_data tasks = map Inr qs"
  shows "\<exists>w'. process_all_tasks fs tr p w = (Returned, w')
           \<and> sent w' = sent w @ map label_request labels_to_create
                          @ map milestone_request milestones @ qs"
proof -
  have w1: "w1 = say (Reading p) w" using read_Inr_world[OF r] .
  let ?w2 = "create_milestones tr (create_labels tr (say (Found (length tasks)) w1))"
  from create_issues_run[OF q, of tr ?w2] obtain c f w' where
    c: "create_issues tr tasks ?w2 = (Inr (c, f, length tasks), w')"
    and s: "sent w' = sent ?w2 @ qs" by blast
  have "process_all_tasks fs tr p w = (Returned, w')"
    using r c by (simp add: process_all_tasks_def)
  moreover have "sent ?w2 = sent w @ map label_request labels_to_create
                          @ map milestone_request milestones"
    by (simp add: create_milestones_sent create_labels_sent w1)
  ultimately show ?thesis using s by simp
qed

lemma cell_missing:
  "col \<notin> set header \<Longrightarrow> cell (row_dict header cells) col = Inl (KeyError col)"
proof -
  assume a: "col \<notin> set header"
  have "col \<notin> fst ` set (rev (row_dict header cells))"
    using a by (auto simp: row_dict_def dest: set_zip_leftD)
  then have "map_of (rev (row_dict header cells)) col = None"
    by (simp add: map_of_eq_None_iff)
  then show ?thesis by (simp add: cell_def)
qed

lemma task_of_row_missing:
  assumes "col \<in> set required_columns" and "cell r col = Inl e"
  shows "\<exists>e'. task_of_row r = Inl e'"
proof (rule ccontr)
  assume "\<nexists>e'. task_of_row r = Inl e'"
  then obtain t where t: "task_of_row r = Inr t" by (cases "task_of_row r") auto
  have "\<forall>c \<in> set required_columns. \<exists>v. cell r c = Inr v"
    using t unfolding task_of_row_def bind_def required_columns_def
    by (auto split: sum.splits)
  then show False using assms by auto
qed

lemma read_rows_first_fails: "task_of_row r = Inl e \<Longrightarrow> read_rows (r # rs) = Inl e"
  by (simp add: bind_def)

lemma read_missing_column:
  assumes "fs p = Csv (header # rows)" and "col \<in> set required_columns"
    and "col \<notin> set header" and "\<exists>cells \<in> set rows. cells \<noteq> []"
  shows "read_tasks_from_csv fs p w = (Inl InputMalformed, say Csv_read_error w)"
proof -
  from assms(4) obtain c cs where f: "filter (\<lambda>cells. cells \<noteq> []) rows = c # cs"
    by (cases "filter (\<lambda>cells. cells \<noteq> []) rows") (auto simp: filter_empty_conv)
  have "dict_reader (header # rows) = row_dict header c # map (row_dict header) cs"
    by (simp add: dict_reader_def f)
  moreover obtain e where "task_of_row (row_dict header c) = Inl e"
    using task_of_row_missing[OF assms(2) cell_missing[OF assms(3)]] by blast
  ultimately have "\<exists>e. read_rows (dict_reader (header # rows)) = Inl e"
    using read_rows_first_fails by auto
  then show ?thesis using assms(1) by (auto simp: read_tasks_from_csv_def)
qed

lemma files_simps:
  "files_example ''tasks.csv'' = Csv table_example"
  "files_example ''no_notes.csv'' = Csv table_no_notes"
  "files_example ''header_only.csv'' = Csv [[''Task ID'', ''Task Name'']]"
  "files_example ''missing.csv'' = Absent"
  by (simp_all add: files_example_def)




text \<open>
  C3, as the code has it. When the path names no file, the run ends in the exit of the
  handler of \<open>FileNotFoundError\<close>; when the header of the file lacks a column the reader
  looks up and the file has at least one row that is not empty, the run ends in the exit
  of the handler of the other exceptions. In both cases the run has printed the message
  and posted nothing to the tracker. A file with no row that is not empty after its
  header is read as the empty list of records whatever its header is, and the run
  returns.
\<close>

theorem reader_failures_stop_the_run:
  "(fs p = Absent \<longrightarrow>
       fst (process_all_tasks fs tr p w) = SystemExit InputNotFound
     \<and> sent (snd (process_all_tasks fs tr p w)) = sent w
     \<and> console (snd (process_all_tasks fs tr p w)) = console w @ [Reading p, Csv_not_found p])
   \<and> (fs p = Csv (header # rows) \<and> col \<in> set required_columns \<and> col \<notin> set header
        \<and> (\<exists>cells \<in> set rows. cells \<noteq> []) \<longrightarrow>
       fst (process_all_tasks fs tr p w) = SystemExit InputMalformed
     \<and> sent (snd (process_all_tasks fs tr p w)) = sent w
     \<and> console (snd (process_all_tasks fs tr p w)) = console w @ [Reading p, Csv_read_error])
   \<and> (fs p = Csv table \<and> (\<forall>cells \<in> set (tl table). cells = []) \<longrightarrow>
       read_tasks_from_csv fs p w = (Inr [], w)
     \<and> fst (process_all_tasks fs tr p w) = Returned)"
proof -
  have "fst (process_all_tasks fs tr p w) = SystemExit InputNotFound
     \<and> sent (snd (process_all_tasks fs tr p w)) = sent w
     \<and> console (snd (process_all_tasks fs tr p w)) = console w @ [Reading p, Csv_not_found p]"
    if "fs p = Absent"
    using that by (simp add: process_all_tasks_def read_tasks_from_csv_def)
  moreover have "fst (process_all_tasks fs tr p w) = SystemExit InputMalformed
     \<and> sent (snd (process_all_tasks fs tr p w)) = sent w
     \<and> console (snd (process_all_tasks fs tr p w)) = console w @ [Reading p, Csv_read_error]"
    if "fs p = Csv (header # rows)" "col \<in> set required_columns" "col \<notin> set header"
      "\<exists>cells \<in> set rows. cells \<noteq> []"
    using read_missing_column[where fs = fs and p = p and w = "say (Reading p) w", OF that]
    by (simp add: process_all_tasks_def)
  moreover have "read_tasks_from_csv fs p w = (Inr [], w)
     \<and> fst (process_all_tasks fs tr p w) = Returned"
    if f: "fs p = Csv table" and e: "\<forall>cells \<in> set (tl table). cells = []"
  proof -
    have "filter (\<lambda>cells. cells \<noteq> []) (tl table) = []"
      using e by (simp add: filter_empty_conv)
    then have "dict_reader table = []"
      by (cases table) (simp_all add: dict_reader_def)
    then have r: "read_rows (dict_reader table) = Inr []" by simp
    have "read_tasks_from_csv fs p (say (Reading p) w) = (Inr [], say (Reading p) w)"
      using read_ok[where fs = fs and p = p, OF f r] .
    from process_all_tasks_run[OF this, of "[]" tr]
    have "fst (process_all_tasks fs tr p w) = Returned" by auto
    moreover have "read_tasks_from_csv fs p w = (Inr [], w)"
      using read_ok[where fs = fs and p = p, OF f r] .
    ultimately show ?thesis by simp
  qed
  ultimately show ?thesis by blast
qed

theorem reader_failures_stop_the_run_witness:
  "files_example ''missing.csv'' = Absent
   \<and> fst (process_all_tasks files_example tracker_conflict ''missing.csv'' world0)
       = SystemExit InputNotFound
   \<and> sent (snd (process_all_tasks files_example tracker_conflict ''missing.csv'' world0)) = []
   \<and> files_example ''no_notes.csv'' = Csv table_no_notes
   \<and> ''Notes'' \<in> set required_columns \<and> ''Notes'' \<notin> set (hd table_no_notes)
   \<and> fst (process_all_tasks files_example tracker_conflict ''no_notes.csv'' world0)
       = SystemExit InputMalformed
   \<and> sent (snd (process_all_tasks files_example tracker_conflict ''no_notes.csv'' world0)) = []
   \<and> files_example ''header_only.csv'' = Csv [[''Task ID'', ''Task Name'']]
   \<and> read_tasks_from_csv files_example ''header_only.csv'' world0 = (Inr [], world0)"
proof -
  have o: "\<forall>cells \<in> set (tl [[''Task ID'', ''Task Name'']]). cells = []" by simp
  have ho: "read_tasks_from_csv files_example ''header_only.csv'' world0 = (Inr [], world0)"
    using reader_failures_stop_the_run[where fs = files_example and p = "''header_only.csv''"
      and table = "[[''Task ID'', ''Task Name'']]" and w = world0 and tr = tracker_conflict]
      files_simps(3) o by blast
  have n: "''Notes'' \<in> set required_columns" by (simp add: required_columns_def)
  have h: "''Notes'' \<notin> set (hd table_no_notes)" by (simp add: table_no_notes_def)
  have t: "table_no_notes = hd table_no_notes # tl table_no_notes"
    by (simp add: table_no_notes_def)
  have f: "files_example ''no_notes.csv'' = Csv (hd table_no_notes # tl table_no_notes)"
    using files_simps(2) t by simp
  have e: "\<exists>cells \<in> set (tl table_no_notes). cells \<noteq> []" by (simp add: table_no_notes_def)
  have s: "sent world0 = []" by (simp add: world0_def)
  from reader_failures_stop_the_run[where fs = files_example and p = "''missing.csv''"
      and tr = tracker_conflict and w = world0]
    reader_failures_stop_the_run[where fs = files_example and p = "''no_notes.csv''"
      and header = "hd table_no_notes" and rows = "tl table_no_notes" and col = "''Notes''"
      and tr = tracker_conflict and w = world0]
    files_simps n h f e s ho
  show ?thesis by simp
qed

text \<open>
  C3 as stated fails: a file whose header lacks the column \<open>Notes\<close> (and fourteen
  more) and that has no row is read as the empty list of records without any error,
  and the run goes on to post the twenty labels and the four milestones.
\<close>

theorem header_only_counterexample:
  "files_example ''header_only.csv'' = Csv [[''Task ID'', ''Task Name'']]
   \<and> ''Notes'' \<in> set required_columns \<and> ''Notes'' \<notin> set [''Task ID'', ''Task Name'']
   \<and> fst (process_all_tasks files_example tracker_conflict ''header_only.csv'' world0) = Returned
   \<and> length (sent (snd (process_all_tasks files_example tracker_conflict ''header_only.csv'' world0)))
       = 24"
proof -
  have r: "read_rows (dict_reader [[''Task ID'', ''Task Name'']]) = Inr []"
    by (simp add: dict_reader_def)
  have "read_tasks_from_csv files_example ''header_only.csv'' (say (Reading ''header_only.csv'') world0)
          = (Inr [], say (Reading ''header_only.csv'') world0)"
    using read_ok[where fs = files_example and p = "''header_only.csv''", OF files_simps(3) r] .
  from process_all_tasks_run[OF this, of "[]" tracker_conflict] obtain w' where
    p: "process_all_tasks files_example tracker_conflict ''header_only.csv'' world0 = (Returned, w')"
    and s: "sent w' = sent world0 @ map label_request labels_to_create
                          @ map milestone_request milestones @ []" by auto
  have "length (sent w') = 24"
    unfolding s by (simp add: world0_def labels_to_create_def milestones_def)
  moreover have "''Notes'' \<in> set required_columns" by (simp add: required_columns_def)
  ultimately show ?thesis using p files_simps(3) by simp
qed

end
